theory Spec2Isabelle
  imports Complex_Main "HOL-Library.Word"
begin

section \<open>JavaScript values\<close>

text \<open>
  The facade of \<^verbatim>\<open>src/firebase/firebaseService.tsx\<close> is TypeScript whose payloads are
  typed \<^verbatim>\<open>any\<close>, so its checks (\<^verbatim>\<open>!data\<close>, \<^verbatim>\<open>typeof\<close>, \<^verbatim>\<open>||\<close>, \<^verbatim>\<open>??\<close>) work on
  arbitrary run-time values. A string is its sequence of UTF-16 code units. A number is
  a double: the finite ones are kept as the rational they denote (with one zero), next
  to \<^verbatim>\<open>NaN\<close> and the two infinities. A plain object is the map from its own enumerable
  property names to their values. \<open>JServerTimestamp\<close> is the sentinel that
  \<^verbatim>\<open>serverTimestamp()\<close> returns, \<open>JTimestamp t\<close> the time \<open>t\<close> the server writes
  for it; both are opaque objects whose own properties are not modelled.
\<close>

type_synonym js_string = "16 word list"

definition js :: "string \<Rightarrow> js_string" where
  "js s = map of_char s"

datatype js_number = Finite rat | NaN | PosInfinity | NegInfinity

datatype js_value =
    JUndefined
  | JNull
  | JBool bool
  | JNum js_number
  | JStr js_string
  | JObj "js_string \<Rightarrow> js_value option"
  | JArr "js_value list"
  | JFun nat
  | JServerTimestamp
  | JTimestamp nat

type_synonym fields = "js_string \<Rightarrow> js_value option"

datatype js_type = TUndefined | TObject | TBoolean | TNumber | TString | TFunction

fun js_typeof :: "js_value \<Rightarrow> js_type" where
  "js_typeof JUndefined = TUndefined"
| "js_typeof JNull = TObject"
| "js_typeof (JBool b) = TBoolean"
| "js_typeof (JNum n) = TNumber"
| "js_typeof (JStr s) = TString"
| "js_typeof (JObj m) = TObject"
| "js_typeof (JArr xs) = TObject"
| "js_typeof (JFun f) = TFunction"
| "js_typeof JServerTimestamp = TObject"
| "js_typeof (JTimestamp t) = TObject"

fun number_truthy :: "js_number \<Rightarrow> bool" where
  "number_truthy (Finite q) = (q \<noteq> 0)"
| "number_truthy NaN = False"
| "number_truthy PosInfinity = True"
| "number_truthy NegInfinity = True"

fun truthy :: "js_value \<Rightarrow> bool" where
  "truthy JUndefined = False"
| "truthy JNull = False"
| "truthy (JBool b) = b"
| "truthy (JNum n) = number_truthy n"
| "truthy (JStr s) = (s \<noteq> [])"
| "truthy (JObj m) = True"
| "truthy (JArr xs) = True"
| "truthy (JFun f) = True"
| "truthy JServerTimestamp = True"
| "truthy (JTimestamp t) = True"

text \<open>\<^verbatim>\<open>a || b\<close> and \<^verbatim>\<open>a ?? b\<close>.\<close>

definition js_or :: "js_value \<Rightarrow> js_value \<Rightarrow> js_value" where
  "js_or a b = (if truthy a then a else b)"

definition nullish :: "js_value \<Rightarrow> bool" where
  "nullish v = (v = JUndefined \<or> v = JNull)"

definition js_coalesce :: "js_value \<Rightarrow> js_value \<Rightarrow> js_value" where
  "js_coalesce a b = (if nullish a then b else a)"

text \<open>\<^verbatim>\<open>Number.isInteger(n)\<close> and \<^verbatim>\<open>n <= 0\<close>.\<close>

fun isInteger :: "js_number \<Rightarrow> bool" where
  "isInteger (Finite q) = (of_int \<lfloor>q\<rfloor> = q)"
| "isInteger NaN = False"
| "isInteger PosInfinity = False"
| "isInteger NegInfinity = False"

fun le_zero :: "js_number \<Rightarrow> bool" where
  "le_zero (Finite q) = (q \<le> 0)"
| "le_zero NaN = False"
| "le_zero PosInfinity = False"
| "le_zero NegInfinity = True"

subsection \<open>Strings\<close>

text \<open>
  \<^verbatim>\<open>String.prototype.trim\<close> removes the white space and line terminator code units of
  ECMAScript from both ends.
\<close>

definition js_whitespace :: "16 word \<Rightarrow> bool" where
  "js_whitespace c =
     (c \<in> set [0x0009, 0x000A, 0x000B, 0x000C, 0x000D, 0x0020, 0x00A0, 0x1680,
                 0x2028, 0x2029, 0x202F, 0x205F, 0x3000, 0xFEFF]
      \<or> (0x2000 \<le> c \<and> c \<le> 0x200A))"

definition trim :: "js_string \<Rightarrow> js_string" where
  "trim s = rev (dropWhile js_whitespace (rev (dropWhile js_whitespace s)))"

text \<open>The decimal digits of a natural number: \<^verbatim>\<open>i.toString()\<close>, \<^verbatim>\<open>`${i}`\<close>.\<close>

function nat_toString :: "nat \<Rightarrow> js_string" where
  "nat_toString n =
     (if n < 10 then [of_nat (48 + n)]
      else nat_toString (n div 10) @ [of_nat (48 + n mod 10)])"
  by pat_completeness auto
termination
  by (relation "measure id") auto

definition int_toString :: "int \<Rightarrow> js_string" where
  "int_toString i =
     (if i < 0 then of_nat 45 # nat_toString (nat (- i)) else nat_toString (nat i))"

subsection \<open>Property access\<close>

text \<open>
  The own enumerable properties of a value, as the spread \<^verbatim>\<open>{...v}\<close> copies them: an
  array's and a string's are their indices; a primitive has none.
\<close>

definition indexed :: "js_value list \<Rightarrow> fields" where
  "indexed xs = map_of (zip (map nat_toString [0..<length xs]) xs)"

fun own_props :: "js_value \<Rightarrow> fields" where
  "own_props (JObj m) = m"
| "own_props (JArr xs) = indexed xs"
| "own_props (JStr s) = indexed (map (\<lambda>c. JStr [c]) s)"
| "own_props v = Map.empty"

text \<open>
  \<^verbatim>\<open>v.k\<close> on a value that is neither \<^verbatim>\<open>null\<close> nor \<^verbatim>\<open>undefined\<close> (inherited
  properties such as \<^verbatim>\<open>length\<close> are not modelled; none of the names read below is one),
  and \<^verbatim>\<open>v?.k\<close>.
\<close>

definition get_prop :: "js_value \<Rightarrow> js_string \<Rightarrow> js_value" where
  "get_prop v k = (case own_props v k of None \<Rightarrow> JUndefined | Some x \<Rightarrow> x)"

definition opt_chain :: "js_value \<Rightarrow> js_string \<Rightarrow> js_value" where
  "opt_chain v k = (if nullish v then JUndefined else get_prop v k)"

subsection \<open>Errors\<close>

text \<open>Every failure of the facade is \<^verbatim>\<open>throw new Error(message)\<close>.\<close>

datatype error = Error js_string

section \<open>String validation\<close>

text \<open>
  \<^verbatim>\<open>const isValidString = (str: string): boolean =>
    typeof str === "string" && str.trim().length > 0;\<close>
\<close>

definition isValidString :: "js_value \<Rightarrow> bool" where
  "isValidString str =
     (case str of JStr s \<Rightarrow> 0 < length (trim s) | _ \<Rightarrow> False)"

section \<open>Role and status labels\<close>

text \<open>
  \<^verbatim>\<open>roleMap\<close> and \<^verbatim>\<open>statusMap\<close> are object literals with numeric keys, read with a
  number: \<^verbatim>\<open>roleMap[typeUsersId]\<close>. The number is converted to its canonical string,
  which is a key only for the number the key was written as, so the objects are kept as
  tables from numbers.
\<close>

definition roleMap :: "(js_number \<times> js_value) list" where
  "roleMap =
     [(Finite 1, JStr (js ''Visiteurs'')),
      (Finite 2, JStr (js ''Locataires'')),
      (Finite 3, JStr (js ''Proprietaire'')),
      (Finite 4, JStr (js ''Administrateur'')),
      (Finite 6, JStr (js ''Agence immobili'' @ [0x00E8] @ js ''re''))]"

definition statusMap :: "(js_number \<times> js_value) list" where
  "statusMap =
     [(Finite 1, JStr (js ''actif'')),
      (Finite 0, JStr (js ''banni'')),
      (Finite 2, JStr (js ''en_attente''))]"

definition index_by :: "(js_number \<times> js_value) list \<Rightarrow> js_number \<Rightarrow> js_value" where
  "index_by table n = (case map_of table n of None \<Rightarrow> JUndefined | Some v \<Rightarrow> v)"

definition getRoleLabel :: "js_number \<Rightarrow> js_value" where
  "getRoleLabel typeUsersId = js_or (index_by roleMap typeUsersId) (JStr (js ''Inconnu''))"

definition getStatusLabel :: "js_number \<Rightarrow> js_value" where
  "getStatusLabel statut = js_or (index_by statusMap statut) (JStr (js ''Inconnu''))"

section \<open>The document store\<close>

text \<open>
  \<^verbatim>\<open>firebase/firestore\<close> is an external SDK: the facade only builds requests and hands
  them over. What the claims need of the SDK is modelled by its documented contract,
  kept as small as possible:
  \<^item> a collection holds documents, each an id with its fields, read in the order of
    their ids (taken here as the order of their code units);
  \<^item> \<^verbatim>\<open>setDoc\<close> with \<^verbatim>\<open>merge\<close> writes the payload's fields over the stored ones and
    keeps the others, without \<^verbatim>\<open>merge\<close> it replaces the document; \<^verbatim>\<open>updateDoc\<close> does the
    former and needs the document to exist; \<^verbatim>\<open>addDoc\<close> creates a document under an id
    the client generates;
  \<^item> a \<^verbatim>\<open>serverTimestamp()\<close> sentinel is stored as the server's time of the write;
  \<^item> \<^verbatim>\<open>limit(n)\<close> keeps the first \<open>n\<close> results, \<^verbatim>\<open>startAfter(snapshot)\<close> the results
    that follow that document;
  \<^item> \<^verbatim>\<open>batch.set\<close>, \<^verbatim>\<open>batch.update\<close> and \<^verbatim>\<open>batch.delete\<close> check their arguments and
    throw at once, before anything is sent: data that is not a plain object (an array,
    a timestamp) is always refused;
  \<^item> a batch commits all of its writes or none.
  Three things are left to the backend as parameters of the state: \<open>refuses\<close>, the
  message with which the SDK or the server rejects a request (an invalid path or
  operator, a denied permission, no network); \<open>refuses_write\<close>, the message with
  which the SDK refuses a write of plain data when it is added to a batch (a field that
  holds a function, say); and \<open>evaluate\<close>, the documents that \<^verbatim>\<open>where\<close> and
  \<^verbatim>\<open>orderBy\<close> clauses select from a collection, in the order they give.
  \<open>requests\<close> records every request the facade hands to the SDK. A document is
  addressed by the name of its collection and its id; names and ids that hold a
  \<^verbatim>\<open>/\<close>, which the SDK reads as paths into subcollections, are not modelled.
\<close>

type_synonym doc_ref = "js_string \<times> js_string"

type_synonym snapshot = "js_string \<times> fields"

datatype constraint =
    Where js_string js_string js_value
  | OrderBy js_string js_string
  | Limit js_number
  | StartAfter snapshot

type_synonym fs_query = "js_string \<times> constraint list"

datatype batch_write =
    WSet doc_ref js_value bool
  | WUpdate doc_ref js_value
  | WDelete doc_ref

datatype request =
    AddDoc js_string fields
  | SetDoc doc_ref fields bool
  | GetDoc doc_ref
  | GetDocs fs_query
  | UpdateDoc doc_ref fields
  | DeleteDoc doc_ref
  | ListenQuery fs_query
  | ListenDoc doc_ref
  | Commit "batch_write list"

datatype listener =
    QueryListener fs_query js_value js_value
  | DocListener doc_ref js_value js_value

record firestore =
  documents :: "js_string \<Rightarrow> snapshot list"
  now :: nat
  auto_ids :: "nat \<Rightarrow> js_string"
  issued :: nat
  refuses :: "request \<Rightarrow> js_string option"
  refuses_write :: "batch_write \<Rightarrow> js_string option"
  evaluate :: "snapshot list \<Rightarrow> constraint list \<Rightarrow> snapshot list"
  listeners :: "listener list"
  requests :: "request list"

type_synonym store = "js_string \<Rightarrow> snapshot list"

definition lookup_doc :: "store \<Rightarrow> doc_ref \<Rightarrow> fields option" where
  "lookup_doc ds r = map_of (ds (fst r)) (snd r)"

fun key_less :: "js_string \<Rightarrow> js_string \<Rightarrow> bool" where
  "key_less [] [] = False"
| "key_less [] (y # ys) = True"
| "key_less (x # xs) [] = False"
| "key_less (x # xs) (y # ys) = (x < y \<or> (x = y \<and> key_less xs ys))"

fun insert_doc :: "snapshot \<Rightarrow> snapshot list \<Rightarrow> snapshot list" where
  "insert_doc d [] = [d]"
| "insert_doc d (x # xs) =
     (if key_less (fst d) (fst x) then d # x # xs else x # insert_doc d xs)"

definition put_doc :: "snapshot \<Rightarrow> snapshot list \<Rightarrow> snapshot list" where
  "put_doc d ds =
     (if map_of ds (fst d) = None then insert_doc d ds
      else map (\<lambda>x. if fst x = fst d then d else x) ds)"

definition remove_doc :: "js_string \<Rightarrow> snapshot list \<Rightarrow> snapshot list" where
  "remove_doc i ds = filter (\<lambda>x. fst x \<noteq> i) ds"

primrec resolve :: "nat \<Rightarrow> js_value \<Rightarrow> js_value" where
  "resolve t JUndefined = JUndefined"
| "resolve t JNull = JNull"
| "resolve t (JBool b) = JBool b"
| "resolve t (JNum n) = JNum n"
| "resolve t (JStr s) = JStr s"
| "resolve t (JObj m) = JObj (\<lambda>k. map_option (resolve t) (m k))"
| "resolve t (JArr xs) = JArr (map (resolve t) xs)"
| "resolve t (JFun f) = JFun f"
| "resolve t JServerTimestamp = JTimestamp t"
| "resolve t (JTimestamp n) = JTimestamp n"

definition resolve_fields :: "nat \<Rightarrow> fields \<Rightarrow> fields" where
  "resolve_fields t m = (\<lambda>k. map_option (resolve t) (m k))"

definition write_set :: "nat \<Rightarrow> doc_ref \<Rightarrow> fields \<Rightarrow> bool \<Rightarrow> store \<Rightarrow> store" where
  "write_set t r payload merge ds =
     (let new = resolve_fields t payload;
          stored = (case lookup_doc ds r of
                      None \<Rightarrow> new
                    | Some old \<Rightarrow> if merge then old ++ new else new)
      in ds (fst r := put_doc (snd r, stored) (ds (fst r))))"

definition not_found :: "doc_ref \<Rightarrow> js_string" where
  "not_found r = js ''No document to update: '' @ fst r @ js ''/'' @ snd r"

definition write_update :: "nat \<Rightarrow> doc_ref \<Rightarrow> fields \<Rightarrow> store \<Rightarrow> js_string + store" where
  "write_update t r payload ds =
     (case lookup_doc ds r of
        None \<Rightarrow> Inl (not_found r)
      | Some old \<Rightarrow>
          Inr (ds (fst r := put_doc (snd r, old ++ resolve_fields t payload) (ds (fst r)))))"

definition write_delete :: "doc_ref \<Rightarrow> store \<Rightarrow> store" where
  "write_delete r ds = ds (fst r := remove_doc (snd r) (ds (fst r)))"



definition sent :: "firestore \<Rightarrow> request \<Rightarrow> firestore" where
  "sent st req = st\<lparr>requests := requests st @ [req]\<rparr>"

definition fs_addDoc :: "firestore \<Rightarrow> js_string \<Rightarrow> fields \<Rightarrow> (js_string + js_string) \<times> firestore" where
  "fs_addDoc st c payload =
     (case refuses st (AddDoc c payload) of
        Some m \<Rightarrow> (Inl m, sent st (AddDoc c payload))
      | None \<Rightarrow>
          (let i = auto_ids st (issued st)
           in (Inr i,
               (sent st (AddDoc c payload))
                 \<lparr>documents := write_set (now st) (c, i) payload False (documents st),
                  issued := Suc (issued st)\<rparr>)))"

definition fs_setDoc :: "firestore \<Rightarrow> doc_ref \<Rightarrow> fields \<Rightarrow> bool \<Rightarrow> (js_string + unit) \<times> firestore" where
  "fs_setDoc st r payload merge =
     (case refuses st (SetDoc r payload merge) of
        Some m \<Rightarrow> (Inl m, sent st (SetDoc r payload merge))
      | None \<Rightarrow>
          (Inr (),
           (sent st (SetDoc r payload merge))
             \<lparr>documents := write_set (now st) r payload merge (documents st)\<rparr>))"

definition fs_getDoc :: "firestore \<Rightarrow> doc_ref \<Rightarrow> (js_string + fields option) \<times> firestore" where
  "fs_getDoc st r =
     (case refuses st (GetDoc r) of
        Some m \<Rightarrow> (Inl m, sent st (GetDoc r))
      | None \<Rightarrow> (Inr (lookup_doc (documents st) r), sent st (GetDoc r)))"

definition fs_updateDoc :: "firestore \<Rightarrow> doc_ref \<Rightarrow> fields \<Rightarrow> (js_string + unit) \<times> firestore" where
  "fs_updateDoc st r payload =
     (case refuses st (UpdateDoc r payload) of
        Some m \<Rightarrow> (Inl m, sent st (UpdateDoc r payload))
      | None \<Rightarrow>
          (case write_update (now st) r payload (documents st) of
             Inl m \<Rightarrow> (Inl m, sent st (UpdateDoc r payload))
           | Inr ds \<Rightarrow> (Inr (), (sent st (UpdateDoc r payload))\<lparr>documents := ds\<rparr>)))"

definition fs_deleteDoc :: "firestore \<Rightarrow> doc_ref \<Rightarrow> (js_string + unit) \<times> firestore" where
  "fs_deleteDoc st r =
     (case refuses st (DeleteDoc r) of
        Some m \<Rightarrow> (Inl m, sent st (DeleteDoc r))
      | None \<Rightarrow>
          (Inr (), (sent st (DeleteDoc r))\<lparr>documents := write_delete r (documents st)\<rparr>))"

text \<open>
  Queries. \<^verbatim>\<open>query(q, ...constraints)\<close> adds constraints to a query; of several limits
  or cursors the last one counts.
\<close>

definition query :: "fs_query \<Rightarrow> constraint list \<Rightarrow> fs_query" where
  "query q cs = (fst q, snd q @ cs)"

fun is_clause :: "constraint \<Rightarrow> bool" where
  "is_clause (Where f operator v) = True"
| "is_clause (OrderBy f d) = True"
| "is_clause (Limit n) = False"
| "is_clause (StartAfter d) = False"

fun limit_of :: "constraint list \<Rightarrow> js_number option" where
  "limit_of [] = None"
| "limit_of (Limit n # cs) = (case limit_of cs of None \<Rightarrow> Some n | Some m \<Rightarrow> Some m)"
| "limit_of (c # cs) = limit_of cs"

fun cursor_of :: "constraint list \<Rightarrow> snapshot option" where
  "cursor_of [] = None"
| "cursor_of (StartAfter d # cs) = (case cursor_of cs of None \<Rightarrow> Some d | Some e \<Rightarrow> Some e)"
| "cursor_of (c # cs) = cursor_of cs"

definition matching :: "firestore \<Rightarrow> fs_query \<Rightarrow> snapshot list" where
  "matching st q =
     (if filter is_clause (snd q) = [] then documents st (fst q)
      else evaluate st (documents st (fst q)) (filter is_clause (snd q)))"

definition after_cursor :: "snapshot \<Rightarrow> snapshot list \<Rightarrow> snapshot list" where
  "after_cursor c ds = drop 1 (dropWhile (\<lambda>d. fst d \<noteq> fst c) ds)"

fun take_limit :: "js_number \<Rightarrow> snapshot list \<Rightarrow> snapshot list" where
  "take_limit (Finite n) ds = take (nat \<lfloor>n\<rfloor>) ds"
| "take_limit NaN ds = ds"
| "take_limit PosInfinity ds = ds"
| "take_limit NegInfinity ds = ds"

definition run_query :: "firestore \<Rightarrow> fs_query \<Rightarrow> snapshot list" where
  "run_query st q =
     (let ds = (case cursor_of (snd q) of
                  None \<Rightarrow> matching st q
                | Some c \<Rightarrow> after_cursor c (matching st q))
      in case limit_of (snd q) of None \<Rightarrow> ds | Some n \<Rightarrow> take_limit n ds)"

definition fs_getDocs :: "firestore \<Rightarrow> fs_query \<Rightarrow> (js_string + snapshot list) \<times> firestore" where
  "fs_getDocs st q =
     (case refuses st (GetDocs q) of
        Some m \<Rightarrow> (Inl m, sent st (GetDocs q))
      | None \<Rightarrow> (Inr (run_query st q), sent st (GetDocs q)))"

text \<open>
  \<^verbatim>\<open>onSnapshot\<close> registers a listener and returns the function that removes it, here
  the listener's position. The deliveries themselves are not modelled.
\<close>

definition fs_onSnapshot :: "firestore \<Rightarrow> request \<Rightarrow> listener \<Rightarrow> (js_string + nat) \<times> firestore" where
  "fs_onSnapshot st req l =
     (case refuses st req of
        Some m \<Rightarrow> (Inl m, sent st req)
      | None \<Rightarrow> (Inr (length (listeners st)), (sent st req)\<lparr>listeners := listeners st @ [l]\<rparr>))"





section \<open>The facade\<close>

text \<open>
  Every function takes the state of the backend and returns what the source returns or
  throws, with the state after the call. An \<^verbatim>\<open>async\<close> function that throws is a
  rejected promise; both are \<open>Inl\<close>. \<^verbatim>\<open>try { ... } catch (error) { throw new
  Error(`prefix${error.message}`) }\<close> puts the prefix before the message of whatever the
  SDK threw.
\<close>

type_synonym 'a outcome = "(error + 'a) \<times> firestore"

definition with_id :: "snapshot \<Rightarrow> js_value" where
  \<comment> \<open>\<^verbatim>\<open>{ id: d.id, ...d.data() }\<close>\<close>
  "with_id d = JObj ([js ''id'' \<mapsto> JStr (fst d)] ++ snd d)"

definition addDocument :: "firestore \<Rightarrow> js_string \<Rightarrow> js_value \<Rightarrow> js_string outcome" where
  "addDocument st collectionName data =
     (if \<not> isValidString (JStr collectionName)
      then (Inl (Error (js ''Nom de collection invalide'')), st)
      else if \<not> truthy data \<or> js_typeof data \<noteq> TObject
      then (Inl (Error (js ''Les donn'' @ [0x00E9] @ js ''es doivent '' @ [0x00EA]
                          @ js ''tre un objet'')), st)
      else
        (case fs_addDoc st collectionName
                ((own_props data)
                   (js ''createdAt'' \<mapsto> JServerTimestamp,
                    js ''updatedAt'' \<mapsto> JServerTimestamp)) of
           (Inl m, st') \<Rightarrow>
             (Inl (Error ([0x00C9] @ js ''chec de l'ajout du document : '' @ m)), st')
         | (Inr i, st') \<Rightarrow> (Inr i, st')))"

definition setDocument ::
  "firestore \<Rightarrow> js_string \<Rightarrow> js_string \<Rightarrow> js_value \<Rightarrow> bool option \<Rightarrow> js_string outcome" where
  "setDocument st collectionName ident data merge_arg =
     (let merge = (case merge_arg of None \<Rightarrow> True | Some b \<Rightarrow> b)
      in if \<not> isValidString (JStr collectionName)
         then (Inl (Error (js ''Nom de collection invalide'')), st)
         else if \<not> isValidString (JStr ident)
         then (Inl (Error (js ''ID de document invalide'')), st)
         else if \<not> truthy data \<or> js_typeof data \<noteq> TObject
         then (Inl (Error (js ''Les donn'' @ [0x00E9] @ js ''es doivent '' @ [0x00EA]
                             @ js ''tre un objet'')), st)
         else
           (case fs_setDoc st (collectionName, ident)
                   ((own_props data)
                      (js ''updatedAt'' \<mapsto> JServerTimestamp,
                       js ''createdAt'' \<mapsto>
                         js_coalesce (get_prop data (js ''createdAt'')) JServerTimestamp))
                   merge of
              (Inl m, st') \<Rightarrow>
                (Inl (Error ([0x00C9] @ js ''chec de la d'' @ [0x00E9]
                               @ js ''finition du document : '' @ m)), st')
            | (Inr u, st') \<Rightarrow> (Inr ident, st')))"

definition getDocumentById :: "firestore \<Rightarrow> js_string \<Rightarrow> js_string \<Rightarrow> js_value outcome" where
  "getDocumentById st collectionName ident =
     (if \<not> isValidString (JStr collectionName)
      then (Inl (Error (js ''Nom de collection invalide'')), st)
      else if \<not> isValidString (JStr ident)
      then (Inl (Error (js ''ID de document invalide'')), st)
      else
        (case fs_getDoc st (collectionName, ident) of
           (Inl m, st') \<Rightarrow>
             (Inl (Error ([0x00C9] @ js ''chec de la r'' @ [0x00E9] @ js ''cup'' @ [0x00E9]
                            @ js ''ration du document : '' @ m)), st')
         | (Inr docSnap, st') \<Rightarrow>
             (Inr (case docSnap of
                     Some d \<Rightarrow> with_id (ident, d)
                   | None \<Rightarrow> JNull), st')))"

definition getCollection :: "firestore \<Rightarrow> js_string \<Rightarrow> js_value list outcome" where
  "getCollection st collectionName =
     (if \<not> isValidString (JStr collectionName)
      then (Inl (Error (js ''Nom de collection invalide'')), st)
      else
        (case fs_getDocs st (collectionName, []) of
           (Inl m, st') \<Rightarrow>
             (Inl (Error ([0x00C9] @ js ''chec de la r'' @ [0x00E9] @ js ''cup'' @ [0x00E9]
                            @ js ''ration de la collection : '' @ m)), st')
         | (Inr docs, st') \<Rightarrow> (Inr (map with_id docs), st')))"

definition updateDocument ::
  "firestore \<Rightarrow> js_string \<Rightarrow> js_string \<Rightarrow> js_value \<Rightarrow> js_string outcome" where
  "updateDocument st collectionName ident data =
     (if \<not> isValidString (JStr collectionName)
      then (Inl (Error (js ''Nom de collection invalide'')), st)
      else if \<not> isValidString (JStr ident)
      then (Inl (Error (js ''ID de document invalide'')), st)
      else if \<not> truthy data \<or> js_typeof data \<noteq> TObject
      then (Inl (Error (js ''Les donn'' @ [0x00E9] @ js ''es doivent '' @ [0x00EA]
                          @ js ''tre un objet'')), st)
      else
        (case fs_updateDoc st (collectionName, ident)
                ((own_props data) (js ''updatedAt'' \<mapsto> JServerTimestamp)) of
           (Inl m, st') \<Rightarrow>
             (Inl (Error ([0x00C9] @ js ''chec de la mise '' @ [0x00E0]
                            @ js '' jour du document : '' @ m)), st')
         | (Inr u, st') \<Rightarrow> (Inr ident, st')))"

definition deleteDocumentById :: "firestore \<Rightarrow> js_string \<Rightarrow> js_string \<Rightarrow> unit outcome" where
  "deleteDocumentById st collectionName ident =
     (if \<not> isValidString (JStr collectionName)
      then (Inl (Error (js ''Nom de collection invalide'')), st)
      else if \<not> isValidString (JStr ident)
      then (Inl (Error (js ''ID de document invalide'')), st)
      else
        (case fs_deleteDoc st (collectionName, ident) of
           (Inl m, st') \<Rightarrow>
             (Inl (Error ([0x00C9] @ js ''chec de la suppression du document : '' @ m)), st')
         | (Inr u, st') \<Rightarrow> (Inr (), st')))"

subsection \<open>Queries\<close>

record QueryCondition =
  field :: js_string
  op :: js_string
  val :: js_value

record OrderOption =
  field :: js_string
  direction :: js_string

record QueryOptions =
  collectionName :: js_string
  conditions :: "QueryCondition list option"
  orders :: "OrderOption list option"
  pageSize :: "js_number option"
  startAfterDoc :: "snapshot option"

text \<open>
  The checks of \<^verbatim>\<open>queryCollection\<close>, in the source's order. \<^verbatim>\<open>pageSize && (...)\<close>
  looks at the page size only when it is truthy.
\<close>

definition invalid_pageSize :: "js_number option \<Rightarrow> bool" where
  "invalid_pageSize p =
     (case p of
        None \<Rightarrow> False
      | Some n \<Rightarrow> number_truthy n \<and> (\<not> isInteger n \<or> le_zero n))"

definition invalid_condition :: "QueryCondition \<Rightarrow> bool" where
  "invalid_condition c =
     (\<not> isValidString (JStr (QueryCondition.field c)) \<or> \<not> isValidString (JStr (op c)))"

definition invalid_order :: "OrderOption \<Rightarrow> bool" where
  "invalid_order ord =
     (\<not> isValidString (JStr (OrderOption.field ord))
      \<or> \<not> (direction ord \<in> set [js ''asc'', js ''desc'']))"

text \<open>
  The query both \<^verbatim>\<open>queryCollection\<close> and \<^verbatim>\<open>listenToCollection\<close> build: the
  \<^verbatim>\<open>where\<close> clauses when there are conditions, the \<^verbatim>\<open>orderBy\<close> clauses when there are
  orders (\<^verbatim>\<open>o.direction || "asc"\<close>), the limit when the page size is truthy.
\<close>

definition where_clauses :: "QueryCondition list \<Rightarrow> constraint list" where
  "where_clauses cs = map (\<lambda>c. Where (QueryCondition.field c) (op c) (val c)) cs"

definition order_clauses :: "OrderOption list \<Rightarrow> constraint list" where
  "order_clauses os =
     map (\<lambda>ord. OrderBy (OrderOption.field ord)
                  (if direction ord \<noteq> [] then direction ord else js ''asc'')) os"

definition limited_query ::
  "js_string \<Rightarrow> QueryCondition list \<Rightarrow> OrderOption list \<Rightarrow> js_number option \<Rightarrow> fs_query" where
  "limited_query c cs os p =
     (let q0 = (c, []);
          q1 = (if cs \<noteq> [] then query q0 (where_clauses cs) else q0);
          q2 = (if os \<noteq> [] then query q1 (order_clauses os) else q1)
      in case p of
           None \<Rightarrow> q2
         | Some n \<Rightarrow> if number_truthy n then query q2 [Limit n] else q2)"

text \<open>The query of \<^verbatim>\<open>queryCollection\<close>: the cursor comes last, when there is one.\<close>

definition page_query :: "QueryOptions \<Rightarrow> fs_query" where
  "page_query options =
     (let q3 = limited_query (collectionName options)
                 (case conditions options of None \<Rightarrow> [] | Some xs \<Rightarrow> xs)
                 (case orders options of None \<Rightarrow> [] | Some xs \<Rightarrow> xs)
                 (pageSize options)
      in case startAfterDoc options of
           None \<Rightarrow> q3
         | Some d \<Rightarrow> query q3 [StartAfter d])"

definition queryCollection ::
  "firestore \<Rightarrow> QueryOptions \<Rightarrow> (js_value list \<times> snapshot option) outcome" where
  "queryCollection st options =
     (let cs = (case conditions options of None \<Rightarrow> [] | Some xs \<Rightarrow> xs);
          os = (case orders options of None \<Rightarrow> [] | Some xs \<Rightarrow> xs)
      in if \<not> isValidString (JStr (collectionName options))
         then (Inl (Error (js ''Nom de collection invalide'')), st)
         else if invalid_pageSize (pageSize options)
         then (Inl (Error (js ''Taille de page invalide'')), st)
         else if list_ex invalid_condition cs
         then (Inl (Error (js ''Conditions de requ'' @ [0x00EA] @ js ''te invalides'')), st)
         else if list_ex invalid_order os
         then (Inl (Error (js ''Conditions de tri invalides'')), st)
         else
           (case fs_getDocs st (page_query options) of
              (Inl m, st') \<Rightarrow>
                (Inl (Error ([0x00C9] @ js ''chec de la requ'' @ [0x00EA]
                               @ js ''te de collection : '' @ m)), st')
            | (Inr docs, st') \<Rightarrow>
                (Inr (map with_id docs, if docs = [] then None else Some (last docs)),
                 st')))"

subsection \<open>Listeners\<close>

text \<open>
  Both are synchronous and have no \<^verbatim>\<open>try\<close>: what \<^verbatim>\<open>onSnapshot\<close> throws is thrown as it
  is. An absent \<^verbatim>\<open>errorCallback\<close> is \<open>JUndefined\<close>.
\<close>

definition listenToCollection ::
  "firestore \<Rightarrow> js_string \<Rightarrow> QueryOptions \<Rightarrow> js_value \<Rightarrow> js_value \<Rightarrow> nat outcome" where
  "listenToCollection st collectionName' options callback errorCallback =
     (let cs = (case conditions options of None \<Rightarrow> [] | Some xs \<Rightarrow> xs);
          os = (case orders options of None \<Rightarrow> [] | Some xs \<Rightarrow> xs)
      in if \<not> isValidString (JStr collectionName')
         then (Inl (Error (js ''Nom de collection invalide'')), st)
         else if js_typeof callback \<noteq> TFunction
         then (Inl (Error (js ''Le callback doit '' @ [0x00EA] @ js ''tre une fonction'')), st)
         else if invalid_pageSize (pageSize options)
         then (Inl (Error (js ''Taille de page invalide'')), st)
         else
           (let q = limited_query collectionName' cs os (pageSize options)
            in case fs_onSnapshot st (ListenQuery q) (QueryListener q callback errorCallback) of
                 (Inl m, st') \<Rightarrow> (Inl (Error m), st')
               | (Inr unsubscribe, st') \<Rightarrow> (Inr unsubscribe, st')))"

definition listenToDocument ::
  "firestore \<Rightarrow> js_string \<Rightarrow> js_string \<Rightarrow> js_value \<Rightarrow> js_value \<Rightarrow> nat outcome" where
  "listenToDocument st collectionName' ident callback errorCallback =
     (if \<not> isValidString (JStr collectionName')
      then (Inl (Error (js ''Nom de collection invalide'')), st)
      else if \<not> isValidString (JStr ident)
      then (Inl (Error (js ''ID de document invalide'')), st)
      else if js_typeof callback \<noteq> TFunction
      then (Inl (Error (js ''Le callback doit '' @ [0x00EA] @ js ''tre une fonction'')), st)
      else
        (case fs_onSnapshot st (ListenDoc (collectionName', ident))
                (DocListener (collectionName', ident) callback errorCallback) of
           (Inl m, st') \<Rightarrow> (Inl (Error m), st')
         | (Inr unsubscribe, st') \<Rightarrow> (Inr unsubscribe, st')))"

subsection \<open>Batches\<close>

record BatchOperation =
  type :: js_string
  ref :: doc_ref
  data :: js_value
  merge :: "bool option"




section \<open>Fetching the users\<close>

text \<open>
  The callback of \<^verbatim>\<open>users.map\<close> in \<^verbatim>\<open>fetchUsers\<close>. Its result is cast
  \<^verbatim>\<open>as User[]\<close> without a check, so it stays a JavaScript object: a field holds
  whatever the stored document holds when that is not replaced by the default.
\<close>

definition toUser :: "js_value \<Rightarrow> js_value" where
  "toUser user =
     JObj (map_of
        [(js ''uid'', get_prop user (js ''id'')),
         (js ''nom'', js_or (get_prop user (js ''nom'')) (JStr [])),
         (js ''prenom'', js_or (get_prop user (js ''prenom'')) (JStr [])),
         (js ''email'', js_or (get_prop user (js ''email'')) (JStr [])),
         (js ''telephone'', js_or (get_prop user (js ''telephone'')) (JStr [])),
         (js ''photoProfil'', js_or (get_prop user (js ''photoProfil'')) (JStr [])),
         (js ''cniNumber'', js_or (get_prop user (js ''cniNumber'')) (JStr [])),
         (js ''CNIDateDelivrer'', js_or (get_prop user (js ''CNIDateDelivrer'')) (JStr [])),
         (js ''cniExpirationDate'', js_or (get_prop user (js ''cniExpirationDate'')) (JStr [])),
         (js ''cniRecto'', js_or (get_prop user (js ''cniRecto'')) (JStr [])),
         (js ''cniVerso'', js_or (get_prop user (js ''cniVerso'')) (JStr [])),
         (js ''addresse'', js_or (get_prop user (js ''addresse'')) (JStr [])),
         (js ''fcmToken'', js_or (get_prop user (js ''fcmToken'')) (JStr [])),
         (js ''lastUpdated'', js_or (get_prop user (js ''lastUpdated'')) (JStr [])),
         (js ''etat'', js_coalesce (get_prop user (js ''etat'')) (JNum (Finite 1))),
         (js ''statut'', js_coalesce (get_prop user (js ''statut'')) (JNum (Finite 1))),
         (js ''typeUsersId'', js_coalesce (get_prop user (js ''typeUsersId'')) (JNum (Finite 3))),
         (js ''notificationPrefs'',
          JObj (map_of
               [(js ''messages'',
                 js_coalesce (opt_chain (get_prop user (js ''notificationPrefs'')) (js ''messages''))
                   (JBool True)),
                (js ''newProperties'',
                 js_coalesce (opt_chain (get_prop user (js ''notificationPrefs'')) (js ''newProperties''))
                   (JBool True)),
                (js ''payments'',
                 js_coalesce (opt_chain (get_prop user (js ''notificationPrefs'')) (js ''payments''))
                   (JBool True)),
                (js ''reservations'',
                 js_coalesce (opt_chain (get_prop user (js ''notificationPrefs'')) (js ''reservations''))
                   (JBool True)),
                (js ''visits'',
                 js_coalesce (opt_chain (get_prop user (js ''notificationPrefs'')) (js ''visits''))
                   (JBool True))]))])"

text \<open>\<^verbatim>\<open>catch (error) { console.error(...); throw error; }\<close> throws the same error.\<close>

definition fetchUsers :: "firestore \<Rightarrow> js_value list outcome" where
  "fetchUsers st =
     (case getCollection st (js ''Users'') of
        (Inl e, st') \<Rightarrow> (Inl e, st')
      | (Inr users, st') \<Rightarrow> (Inr (map toUser users), st'))"

section \<open>Mock users\<close>

record NotificationPrefs =
  messages :: bool
  newProperties :: bool
  payments :: bool
  reservations :: bool
  visits :: bool

record User =
  uid :: js_string
  nom :: js_string
  prenom :: js_string
  email :: js_string
  telephone :: js_string
  photoProfil :: js_string
  cniNumber :: js_string
  CNIDateDelivrer :: js_string
  cniExpirationDate :: js_string
  cniRecto :: js_string
  cniVerso :: js_string
  addresse :: js_string
  fcmToken :: js_string
  lastUpdated :: js_string
  etat :: js_number
  statut :: js_number
  typeUsersId :: js_number
  notificationPrefs :: NotificationPrefs

text \<open>The one record \<^verbatim>\<open>mockUsers\<close> is declared with.\<close>

definition first_user :: User where
  "first_user =
     \<lparr>uid = js ''1'',
      nom = js ''Dupont'',
      prenom = js ''Jean'',
      email = js ''jean.dupont@email.com'',
      telephone = js ''+33612345678'',
      photoProfil =
        js ''https://images.pexels.com/photos/220453/pexels-photo-220453.jpeg?w=150&h=150&fit=crop'',
      cniNumber = js ''FR123456789'',
      CNIDateDelivrer = js ''2020-01-15'',
      cniExpirationDate = js ''2030-01-15'',
      cniRecto = js ''cni-recto-1.jpg'',
      cniVerso = js ''cni-verso-1.jpg'',
      addresse = js ''123 rue de Paris, 75001 Paris'',
      fcmToken = js ''fcm-token-1'',
      lastUpdated = js ''2025-01-27'',
      etat = Finite 1,
      statut = Finite 1,
      typeUsersId = Finite 1,
      notificationPrefs =
        \<lparr>messages = True, newProperties = True, payments = True,
         reservations = True, visits = True\<rparr>\<rparr>"

text \<open>
  The numbers of the loop are doubles, and \<^verbatim>\<open>Math.random() * 3\<close> is rounded to the
  nearest double, ties to the even one, before \<^verbatim>\<open>Math.floor\<close> sees it. A double that
  is not negative is kept as a pair \<open>(m, e)\<close> that stands for \<open>m \<times> 2\<^sup>e\<close>. \<open>fl\<close>
  rounds such a pair to the 53 significant bits of a double; the product and the sum
  of two doubles are the exact ones, rounded. All that the loop computes is a draw
  times an integer below \<open>2\<^sup>3\<^sup>0\<close>, and such a product plus an integer: these stay
  below \<open>2\<^sup>3\<^sup>1\<close>, and the product of a draw that is so small that the product falls
  under the normal range is a multiple of \<open>2\<^sup>-\<^sup>1\<^sup>0\<^sup>7\<^sup>4\<close> with fewer than 53 bits, which
  is a double. So rounding to 53 bits is all there is, neither overflow nor a loss of
  bits to underflow.
\<close>

type_synonym binary64 = "nat \<times> int"

definition number_of :: "binary64 \<Rightarrow> rat" where
  "number_of d =
     (if 0 \<le> snd d then of_nat (fst d) * 2 ^ nat (snd d)
      else of_nat (fst d) / 2 ^ nat (- snd d))"

fun bit_length :: "nat \<Rightarrow> nat" where
  "bit_length n = (if n = 0 then 0 else Suc (bit_length (n div 2)))"

declare bit_length.simps [simp del]

definition round_half_even :: "nat \<Rightarrow> nat \<Rightarrow> nat" where
  \<comment> \<open>\<open>m / 2\<^sup>s\<close> rounded to the nearest integer, a tie to the even one\<close>
  "round_half_even m s =
     (if s = 0 then m
      else if m mod 2 ^ s < 2 ^ (s - 1) then m div 2 ^ s
      else if 2 ^ (s - 1) < m mod 2 ^ s then m div 2 ^ s + 1
      else if even (m div 2 ^ s) then m div 2 ^ s
      else m div 2 ^ s + 1)"

definition fl :: "binary64 \<Rightarrow> binary64" where
  "fl d =
     (let s = bit_length (fst d) - 53
      in (round_half_even (fst d) s, snd d + int s))"

definition double_times :: "binary64 \<Rightarrow> binary64 \<Rightarrow> binary64" where
  "double_times a b = fl (fst a * fst b, snd a + snd b)"

definition double_plus :: "binary64 \<Rightarrow> binary64 \<Rightarrow> binary64" where
  "double_plus a b =
     (let e = min (snd a) (snd b)
      in fl (fst a * 2 ^ nat (snd a - e) + fst b * 2 ^ nat (snd b - e), e))"

definition Math_floor :: "binary64 \<Rightarrow> int" where
  "Math_floor d =
     (if 0 \<le> snd d then int (fst d * 2 ^ nat (snd d))
      else int (fst d div 2 ^ nat (- snd d)))"

text \<open>
  \<^verbatim>\<open>Math.random()\<close> is a sequence of draws, \<open>random k\<close> the \<open>k\<close>-th. A draw is any
  double in \<open>[0, 1)\<close>: those are the pairs with \<open>m < 2\<^sup>5\<^sup>3\<close> and an exponent from
  \<open>-1074\<close> to \<open>-53\<close>. The object literal of the loop's body draws eleven times, in
  the order of its fields; \<open>k\<close> is the number of draws made before it.
\<close>

definition is_draw :: "binary64 \<Rightarrow> bool" where
  "is_draw d = (fst d < 2 ^ 53 \<and> - 1074 \<le> snd d \<and> snd d \<le> - 53)"

definition generated_user :: "(nat \<Rightarrow> binary64) \<Rightarrow> nat \<Rightarrow> nat \<Rightarrow> User" where
  "generated_user random k i =
     \<lparr>uid = nat_toString i,
      nom = js ''Nom'' @ nat_toString i,
      prenom = js ''Prenom'' @ nat_toString i,
      email = js ''user'' @ nat_toString i @ js ''@email.com'',
      telephone =
        js ''+336''
        @ int_toString (Math_floor (double_plus (10000000, 0) (double_times (random k) (90000000, 0)))),
      photoProfil =
        js ''https://images.pexels.com/photos/'' @ nat_toString (220453 + i)
        @ js ''/pexels-photo-'' @ nat_toString (220453 + i)
        @ js ''.jpeg?w=150&h=150&fit=crop'',
      cniNumber =
        js ''FR''
        @ int_toString
            (Math_floor (double_plus (100000000, 0) (double_times (random (k + 1)) (900000000, 0)))),
      CNIDateDelivrer = js ''2020-01-15'',
      cniExpirationDate = js ''2030-01-15'',
      cniRecto = js ''cni-recto-'' @ nat_toString i @ js ''.jpg'',
      cniVerso = js ''cni-verso-'' @ nat_toString i @ js ''.jpg'',
      addresse = nat_toString i @ js '' rue de Paris, 75001 Paris'',
      fcmToken = js ''fcm-token-'' @ nat_toString i,
      lastUpdated =
        js ''2025-01-'' @ int_toString (Math_floor (double_times (random (k + 2)) (27, 0)) + 1),
      etat = Finite (of_int (Math_floor (double_times (random (k + 3)) (3, 0)))),
      statut = Finite (of_int (Math_floor (double_times (random (k + 4)) (3, 0)))),
      typeUsersId = Finite (of_int (Math_floor (double_times (random (k + 5)) (3, 0)) + 1)),
      notificationPrefs =
        \<lparr>messages = (number_of (random (k + 6)) > 1 / 2),
         newProperties = (number_of (random (k + 7)) > 1 / 2),
         payments = (number_of (random (k + 8)) > 1 / 2),
         reservations = (number_of (random (k + 9)) > 1 / 2),
         visits = (number_of (random (k + 10)) > 1 / 2)\<rparr>\<rparr>"

text \<open>\<^verbatim>\<open>for (let i = 2; i <= 40; i++) { mockUsers.push({...}); }\<close>\<close>

function mock_loop ::
  "(nat \<Rightarrow> binary64) \<Rightarrow> nat \<Rightarrow> nat \<Rightarrow> User list \<Rightarrow> User list" where
  "mock_loop random k i users =
     (if i \<le> 40
      then mock_loop random (k + 11) (i + 1) (users @ [generated_user random k i])
      else users)"
  by pat_completeness auto
termination
  by (relation "measure (\<lambda>(random, k, i, users). 41 - i)") auto

definition mockUsers :: "(nat \<Rightarrow> binary64) \<Rightarrow> User list" where
  "mockUsers random = mock_loop random 0 2 [first_user]"

section \<open>Vocabulary of the claims\<close>



definition stored_field :: "firestore \<Rightarrow> doc_ref \<Rightarrow> js_string \<Rightarrow> js_value option" where
  "stored_field st r k =
     (case lookup_doc (documents st) r of None \<Rightarrow> None | Some d \<Rightarrow> d k)"

section \<open>Example states\<close>

text \<open>
  A backend with five documents in the collection \<^verbatim>\<open>Users\<close>, whose server time is 100
  and which accepts every request; and the same backend refusing every request.
\<close>

definition demo_users :: "snapshot list" where
  "demo_users =
     [(js ''u1'', [js ''nom'' \<mapsto> JStr (js ''Ada'')]),
      (js ''u2'', [js ''nom'' \<mapsto> JStr (js ''Bob''), js ''statut'' \<mapsto> JNum (Finite 0)]),
      (js ''u3'', [js ''id'' \<mapsto> JStr (js ''other'')]),
      (js ''u4'', Map.empty),
      (js ''u5'', [js ''notificationPrefs'' \<mapsto> JObj [js ''visits'' \<mapsto> JBool False]])]"

definition demo :: firestore where
  "demo =
     \<lparr>documents = (\<lambda>c. if c = js ''Users'' then demo_users else []),
      now = 100,
      auto_ids = (\<lambda>n. js ''auto'' @ nat_toString n),
      issued = 0,
      refuses = (\<lambda>r. None),
      refuses_write = (\<lambda>w. None),
      evaluate = (\<lambda>ds cs. ds),
      listeners = [],
      requests = []\<rparr>"


text \<open>The first page of two of the users, and a query with page size 0.\<close>

definition demo_page :: QueryOptions where
  "demo_page =
     \<lparr>collectionName = js ''Users'', conditions = None, orders = None,
      pageSize = Some (Finite 2), startAfterDoc = None\<rparr>"

definition demo_page_zero :: QueryOptions where
  "demo_page_zero =
     \<lparr>collectionName = js ''Users'', conditions = None, orders = None,
      pageSize = Some (Finite 0), startAfterDoc = None\<rparr>"






text \<open>
  Two calls of \<open>setDocument\<close> on the same new document: the first at the server time
  100, with the default \<^verbatim>\<open>merge\<close>, the second at the server time 200.
\<close>

definition demo_first_set :: firestore where
  "demo_first_set =
     snd (setDocument demo (js ''Users'') (js ''u6'')
            (JObj [js ''nom'' \<mapsto> JStr (js ''Eve'')]) None)"

definition demo_second_set :: firestore where
  "demo_second_set =
     snd (setDocument (demo_first_set\<lparr>now := 200\<rparr>) (js ''Users'') (js ''u6'')
            (JObj [js ''prenom'' \<mapsto> JStr (js ''Lise'')]) (Some True))"

section \<open>Properties\<close>

subsection \<open>Strings\<close>

text \<open>Two literals are the same JavaScript string only if they are the same literal.\<close>

lemma of_char_word_eq_iff: "((of_char c :: 16 word) = of_char d) = (c = d)"
proof -
  have small: "take_bit 16 (of_char x :: nat) = of_char x" for x
  proof (rule take_bit_nat_eq_self)
    have "(of_char x :: nat) < 256"
      by (rule nat_of_char_less_256)
    also have "(256 :: nat) < 2 ^ 16"
      by simp
    finally show "(of_char x :: nat) < 2 ^ 16" .
  qed
  have "((of_nat (of_char c) :: 16 word) = of_nat (of_char d))
      = ((of_char c :: nat) = of_char d)"
    by (simp add: word_of_nat_eq_iff small)
  then show ?thesis
    by (simp add: of_nat_of_char)
qed

lemma js_eq_iff: "(js a = js b) = (a = b)"
  by (simp add: js_def inj_map_eq_map inj_def of_char_word_eq_iff)

subsection \<open>Blank strings\<close>

lemma dropWhile_all_iff: "(\<forall>x \<in> set (dropWhile P xs). P x) = (dropWhile P xs = [])"
proof
  assume all: "\<forall>x \<in> set (dropWhile P xs). P x"
  show "dropWhile P xs = []"
  proof (rule ccontr)
    assume ne: "dropWhile P xs \<noteq> []"
    then have "\<not> P (hd (dropWhile P xs))"
      by (rule hd_dropWhile)
    moreover from ne have "hd (dropWhile P xs) \<in> set (dropWhile P xs)"
      by simp
    ultimately show False
      using all by blast
  qed
next
  assume "dropWhile P xs = []"
  then show "\<forall>x \<in> set (dropWhile P xs). P x"
    by (auto dest: set_dropWhileD)
qed

lemma trim_Nil_iff: "(trim s = []) = list_all js_whitespace s"
proof -
  have "(trim s = []) = (\<forall>x \<in> set (dropWhile js_whitespace s). js_whitespace x)"
    by (simp add: trim_def)
  also have "\<dots> = (dropWhile js_whitespace s = [])"
    by (rule dropWhile_all_iff)
  also have "\<dots> = list_all js_whitespace s"
    by (simp add: list_all_iff)
  finally show ?thesis .
qed

lemma isValidString_iff: "isValidString (JStr s) = (\<not> list_all js_whitespace s)"
  by (simp add: isValidString_def trim_Nil_iff)

lemma valid_Users: "isValidString (JStr (js ''Users''))"
  by (simp add: isValidString_iff js_def js_whitespace_def)

lemma blank_invalid: "list_all js_whitespace s \<Longrightarrow> \<not> isValidString (JStr s)"
  by (simp add: isValidString_iff)

text \<open>
  Claim C5. A collection name that is empty or made of white space only makes each of
  \<open>addDocument\<close>, \<open>setDocument\<close>, \<open>getDocumentById\<close>, \<open>getCollection\<close>,
  \<open>updateDocument\<close>, \<open>deleteDocumentById\<close>, \<open>queryCollection\<close>,
  \<open>listenToCollection\<close> and \<open>listenToDocument\<close> throw the validation error
  \<^verbatim>\<open>Nom de collection invalide\<close>, whatever the other arguments are, and leaves the
  backend's state as it was: no request is recorded, so the SDK was not called.
\<close>

theorem blank_collection_rejected:
  assumes "list_all js_whitespace name"
  shows "addDocument st name d = (Inl (Error (js ''Nom de collection invalide'')), st)
    \<and> setDocument st name i d m = (Inl (Error (js ''Nom de collection invalide'')), st)
    \<and> getDocumentById st name i = (Inl (Error (js ''Nom de collection invalide'')), st)
    \<and> getCollection st name = (Inl (Error (js ''Nom de collection invalide'')), st)
    \<and> updateDocument st name i d = (Inl (Error (js ''Nom de collection invalide'')), st)
    \<and> deleteDocumentById st name i = (Inl (Error (js ''Nom de collection invalide'')), st)
    \<and> queryCollection st (options\<lparr>collectionName := name\<rparr>)
        = (Inl (Error (js ''Nom de collection invalide'')), st)
    \<and> listenToCollection st name options cb ecb
        = (Inl (Error (js ''Nom de collection invalide'')), st)
    \<and> listenToDocument st name i cb ecb
        = (Inl (Error (js ''Nom de collection invalide'')), st)"
  using blank_invalid [OF assms]
  by (simp add: addDocument_def setDocument_def getDocumentById_def getCollection_def
      updateDocument_def deleteDocumentById_def queryCollection_def listenToCollection_def
      listenToDocument_def Let_def)

theorem blank_collection_rejected_witness:
  "\<forall>st d i m options cb ecb.
     addDocument st [0x0020, 0x0009] d
        = (Inl (Error (js ''Nom de collection invalide'')), st)
    \<and> setDocument st [0x0020, 0x0009] i d m
        = (Inl (Error (js ''Nom de collection invalide'')), st)
    \<and> getDocumentById st [0x0020, 0x0009] i
        = (Inl (Error (js ''Nom de collection invalide'')), st)
    \<and> getCollection st [0x0020, 0x0009]
        = (Inl (Error (js ''Nom de collection invalide'')), st)
    \<and> updateDocument st [0x0020, 0x0009] i d
        = (Inl (Error (js ''Nom de collection invalide'')), st)
    \<and> deleteDocumentById st [0x0020, 0x0009] i
        = (Inl (Error (js ''Nom de collection invalide'')), st)
    \<and> queryCollection st (options\<lparr>collectionName := [0x0020, 0x0009]\<rparr>)
        = (Inl (Error (js ''Nom de collection invalide'')), st)
    \<and> listenToCollection st [0x0020, 0x0009] options cb ecb
        = (Inl (Error (js ''Nom de collection invalide'')), st)
    \<and> listenToDocument st [0x0020, 0x0009] i cb ecb
        = (Inl (Error (js ''Nom de collection invalide'')), st)"
proof -
  have blank: "list_all js_whitespace [0x0020, 0x0009]"
    by (simp add: js_whitespace_def)
  show ?thesis
    using blank_collection_rejected [OF blank] by blast
qed

subsection \<open>Labels\<close>

text \<open>
  Claim C10. \<open>getRoleLabel\<close> and \<open>getStatusLabel\<close> return a value for every number:
  for a key of \<open>roleMap\<close> (1, 2, 3, 4, 6) or of \<open>statusMap\<close> (0, 1, 2) the label the
  table gives, for every other number, \<open>NaN\<close> and the infinities included, the string
  \<^verbatim>\<open>Inconnu\<close>.
\<close>

theorem labels_total:
  "(n \<in> {Finite 1, Finite 2, Finite 3, Finite 4, Finite 6} \<longrightarrow>
      map_of roleMap n = Some (getRoleLabel n))
   \<and> (n \<notin> {Finite 1, Finite 2, Finite 3, Finite 4, Finite 6} \<longrightarrow>
      getRoleLabel n = JStr (js ''Inconnu''))
   \<and> (s \<in> {Finite 0, Finite 1, Finite 2} \<longrightarrow>
      map_of statusMap s = Some (getStatusLabel s))
   \<and> (s \<notin> {Finite 0, Finite 1, Finite 2} \<longrightarrow>
      getStatusLabel s = JStr (js ''Inconnu''))"
  by (auto simp: getRoleLabel_def getStatusLabel_def roleMap_def statusMap_def index_by_def
      js_or_def js_def)

theorem labels_total_witness:
  "getRoleLabel (Finite 4) = JStr (js ''Administrateur'')
   \<and> getRoleLabel (Finite 5) = JStr (js ''Inconnu'')
   \<and> getRoleLabel NaN = JStr (js ''Inconnu'')
   \<and> getStatusLabel (Finite 2) = JStr (js ''en_attente'')
   \<and> getStatusLabel (Finite 7) = JStr (js ''Inconnu'')
   \<and> getStatusLabel (Finite (1 / 2)) = JStr (js ''Inconnu'')"
  using labels_total [of "Finite 4" "Finite 2"] labels_total [of "Finite 5" "Finite 7"]
    labels_total [of NaN "Finite (1 / 2)"]
  by (simp add: roleMap_def statusMap_def)

subsection \<open>Mock users\<close>

text \<open>
  The loop leaves the users it was given in front and adds one generated user for each
  index from \<open>i\<close> to 40, the \<open>j\<close>-th after eleven draws for each index before it.
\<close>

lemma mock_loop_eq:
  "i \<le> 41 \<Longrightarrow>
   mock_loop random k i users
     = users @ map (\<lambda>j. generated_user random (k + 11 * (j - i)) j) [i..<41]"
proof (induction "41 - i" arbitrary: i k users)
  case 0
  then have "i = 41" by simp
  then show ?case by simp
next
  case (Suc n)
  then have le: "i \<le> 40" and n: "n = 41 - (i + 1)" and le': "i + 1 \<le> 41"
    by simp_all
  have step: "mock_loop random k i users
      = mock_loop random (k + 11) (i + 1) (users @ [generated_user random k i])"
    using le by simp
  have upt: "[i..<41] = i # [i + 1..<41]"
    using le by (simp add: upt_conv_Cons)
  have shift: "map (\<lambda>j. generated_user random (k + 11 + 11 * (j - (i + 1))) j) [i + 1..<41]
      = map (\<lambda>j. generated_user random (k + 11 * (j - i)) j) [i + 1..<41]"
  proof (rule map_cong [OF refl])
    fix j assume "j \<in> set [i + 1..<41]"
    then have "i + 1 \<le> j"
      by simp
    then have "k + 11 + 11 * (j - (i + 1)) = k + 11 * (j - i)"
      by arith
    then show "generated_user random (k + 11 + 11 * (j - (i + 1))) j
        = generated_user random (k + 11 * (j - i)) j"
      by (rule arg_cong [where f = "\<lambda>m. generated_user random m j"])
  qed
  show ?case
    unfolding step Suc.hyps(1) [OF n le'] upt shift by simp
qed

text \<open>
  The arithmetic of the doubles: the bits of a number, what rounding to the nearest
  even adds at most, and \<open>Math.floor\<close> as the floor of the number denoted.
\<close>

lemma bit_length_le: "n < 2 ^ k \<Longrightarrow> bit_length n \<le> k"
proof (induction n arbitrary: k rule: bit_length.induct)
  case (1 n)
  show ?case
  proof (cases "n = 0")
    case True
    then show ?thesis by (simp add: bit_length.simps)
  next
    case False
    with "1.prems" obtain j where k: "k = Suc j"
      by (cases k) auto
    with "1.prems" have "n div 2 < 2 ^ j"
      by auto
    from "1.IH" [OF False this] show ?thesis
      using False by (simp add: k bit_length.simps [of n])
  qed
qed

lemma round_half_even_le:
  assumes s: "0 < s"
  shows "round_half_even m s * 2 ^ s \<le> m + 2 ^ (s - 1)"
proof -
  define q where "q = m div 2 ^ s"
  define r where "r = m mod 2 ^ s"
  define h :: nat where "h = 2 ^ (s - 1)"
  have m: "m = q * 2 ^ s + r"
    unfolding q_def r_def by (rule div_mult_mod_eq [symmetric])
  have whole: "(2::nat) ^ s = h + h"
    using s unfolding h_def by (cases s) simp_all
  have down: "q * 2 ^ s \<le> m + h"
    unfolding m by simp
  have up: "(q + 1) * 2 ^ s \<le> m + h" if "h \<le> r"
  proof -
    have "(q + 1) * 2 ^ s = q * 2 ^ s + (h + h)"
      unfolding whole [symmetric] by (simp add: algebra_simps)
    also have "\<dots> \<le> q * 2 ^ s + r + h"
      using that by simp
    finally show ?thesis
      unfolding m [symmetric] .
  qed
  have cases: "round_half_even m s = q \<or> (round_half_even m s = q + 1 \<and> h \<le> r)"
    using s unfolding round_half_even_def q_def r_def h_def by auto
  then show ?thesis
  proof
    assume "round_half_even m s = q"
    with down show ?thesis unfolding h_def by simp
  next
    assume "round_half_even m s = q + 1 \<and> h \<le> r"
    with up show ?thesis unfolding h_def by simp
  qed
qed

lemma Math_floor_eq: "Math_floor d = \<lfloor>number_of d\<rfloor>"
proof (cases "0 \<le> snd d")
  case True
  have "number_of d = of_int (int (fst d * 2 ^ nat (snd d)))"
    using True by (simp add: number_of_def)
  then have "\<lfloor>number_of d\<rfloor> = int (fst d * 2 ^ nat (snd d))"
    by (simp only: floor_of_int)
  then show ?thesis
    using True by (simp add: Math_floor_def)
next
  case False
  have "number_of d = of_int (int (fst d)) / of_int (2 ^ nat (- snd d))"
    using False by (simp add: number_of_def)
  then have "\<lfloor>number_of d\<rfloor> = int (fst d) div 2 ^ nat (- snd d)"
    by (simp only: floor_divide_of_int_eq)
  then show ?thesis
    using False by (simp add: Math_floor_def zdiv_int)
qed

text \<open>A draw times 3 is below 3 also after rounding.\<close>

lemma draw_times_three:
  assumes "is_draw d"
  shows "number_of (double_times d (3, 0)) < 3"
proof -
  obtain m e where d: "d = (m, e)" by (cases d)
  from assms have m: "m < 2 ^ 53" and e: "e \<le> - 53"
    by (simp_all add: is_draw_def d)
  define s where "s = bit_length (m * 3) - 53"
  have "m * 3 < 2 ^ 55"
    using m by simp
  then have "bit_length (m * 3) \<le> 55"
    by (rule bit_length_le)
  then have s2: "s \<le> 2"
    by (simp add: s_def)
  from e have "0 \<le> - e"
    by simp
  then obtain n where en: "- e = int n"
    by (rule nonneg_int_cases) simp
  have n: "53 \<le> n" "e = - int n"
    using en e by simp_all
  have r: "double_times d (3, 0) = (round_half_even (m * 3) s, - int n + int s)"
    by (simp add: double_times_def fl_def d s_def Let_def n)
  have bound: "round_half_even (m * 3) s * 2 ^ s < 3 * 2 ^ 53"
  proof (cases "s = 0")
    case True
    then show ?thesis
      using m by (simp add: round_half_even_def)
  next
    case False
    then have "round_half_even (m * 3) s * 2 ^ s \<le> m * 3 + 2 ^ (s - 1)"
      by (intro round_half_even_le) simp
    also have "(2::nat) ^ (s - 1) \<le> 2 ^ 1"
      using s2 by (intro power_increasing) simp_all
    finally show ?thesis
      using m by simp
  qed
  have sn: "s \<le> n"
    using s2 n by simp
  have "(2::nat) ^ 53 \<le> 2 ^ n"
    using n(1) by (intro power_increasing) simp_all
  then have "(3::nat) * 2 ^ 53 \<le> 3 * 2 ^ n"
    by (simp only: mult_le_mono2)
  with bound have "round_half_even (m * 3) s * 2 ^ s < 3 * 2 ^ n"
    by simp
  also have "(3::nat) * 2 ^ n = 3 * 2 ^ (n - s) * 2 ^ s"
  proof -
    have "n = (n - s) + s"
      using sn by simp
    then have "(2::nat) ^ n = 2 ^ (n - s) * 2 ^ s"
      by (metis power_add)
    then show ?thesis
      by simp
  qed
  finally have lt: "round_half_even (m * 3) s < 3 * 2 ^ (n - s)"
    by simp
  have neg: "\<not> 0 \<le> - int n + int s"
    using s2 n by simp
  have "number_of (double_times d (3, 0))
      = of_nat (round_half_even (m * 3) s) / 2 ^ (n - s)"
    using sn neg by (simp add: r number_of_def nat_diff_distrib')
  also have "\<dots> < 3"
  proof -
    from lt have "(of_nat (round_half_even (m * 3) s) :: rat) < of_nat (3 * 2 ^ (n - s))"
      by (simp only: of_nat_less_iff)
    then show ?thesis
      by (simp add: divide_less_eq)
  qed
  finally show ?thesis .
qed

lemma number_of_nonneg: "0 \<le> number_of d"
  by (simp add: number_of_def)

lemma floor_draw_times_three:
  assumes "is_draw d"
  shows "Math_floor (double_times d (3, 0)) \<in> {0, 1, 2}"
proof -
  have "0 \<le> \<lfloor>number_of (double_times d (3, 0))\<rfloor>"
    using number_of_nonneg by simp
  moreover have "\<lfloor>number_of (double_times d (3, 0))\<rfloor> < 3"
    using draw_times_three [OF assms] by (simp add: floor_less_iff)
  ultimately have "Math_floor (double_times d (3, 0)) = 0
      \<or> Math_floor (double_times d (3, 0)) = 1 \<or> Math_floor (double_times d (3, 0)) = 2"
    unfolding Math_floor_eq by arith
  then show ?thesis by simp
qed

lemma generated_user_ranges:
  assumes "\<forall>k. is_draw (random k)"
  shows "typeUsersId (generated_user random k i) \<in> {Finite 1, Finite 2, Finite 3}
       \<and> statut (generated_user random k i) \<in> {Finite 0, Finite 1, Finite 2}"
proof -
  from assms have "is_draw (random (k + 5))" and "is_draw (random (k + 4))"
    by simp_all
  then show ?thesis
    using floor_draw_times_three [of "random (k + 5)"]
      floor_draw_times_three [of "random (k + 4)"]
    by (auto simp: generated_user_def)
qed

text \<open>
  The double next below \<open>2/3\<close>, \<^verbatim>\<open>0.6666666666666666\<close>: three times it lies halfway
  between two doubles and is rounded up to 2.
\<close>

lemma two_thirds_rounds_up:
  "Math_floor (double_times (6004799503160661, - 53) (3, 0)) = 2"
  by (simp add: double_times_def fl_def round_half_even_def Math_floor_def Let_def
      bit_length.simps)

text \<open>
  Claim C8. Whatever the draws of \<^verbatim>\<open>Math.random()\<close> are, each a double in \<open>[0, 1)\<close>,
  the loop over the indices 2 to 40 adds exactly 39 records to the one \<open>mockUsers\<close>
  starts with, and each added record has \<open>typeUsersId\<close> in \<open>{1, 2, 3}\<close> and \<open>statut\<close> in
  \<open>{0, 1, 2}\<close>. The products \<^verbatim>\<open>Math.random() * 3\<close> are rounded as doubles are, to the
  nearest with ties to even, and stay below 3.
\<close>

theorem mock_users_generated:
  assumes "\<forall>k. is_draw (random k)"
  shows "length (mockUsers random) = 1 + 39
       \<and> take 1 (mockUsers random) = [first_user]
       \<and> (\<forall>u \<in> set (drop 1 (mockUsers random)).
            typeUsersId u \<in> {Finite 1, Finite 2, Finite 3}
            \<and> statut u \<in> {Finite 0, Finite 1, Finite 2})"
  using generated_user_ranges [OF assms]
  by (auto simp: mockUsers_def mock_loop_eq)

theorem mock_users_generated_witness:
  "is_draw (6004799503160661, - 53)
   \<and> length (mockUsers (\<lambda>k. (6004799503160661, - 53))) = 40
   \<and> take 1 (mockUsers (\<lambda>k. (6004799503160661, - 53))) = [first_user]
   \<and> list_all (\<lambda>u. typeUsersId u \<in> {Finite 1, Finite 2, Finite 3}
                  \<and> statut u \<in> {Finite 0, Finite 1, Finite 2})
        (drop 1 (mockUsers (\<lambda>k. (6004799503160661, - 53))))
   \<and> statut (mockUsers (\<lambda>k. (6004799503160661, - 53)) ! 1) = Finite 2
   \<and> typeUsersId (mockUsers (\<lambda>k. (6004799503160661, - 53)) ! 1) = Finite 3"
proof -
  have draws: "\<forall>k::nat. is_draw (6004799503160661, - 53)"
    by (simp add: is_draw_def)
  have second: "mockUsers (\<lambda>k. (6004799503160661, - 53)) ! 1
      = generated_user (\<lambda>k. (6004799503160661, - 53)) 0 2"
    by (simp add: mockUsers_def mock_loop_eq upt_conv_Cons)
  have "statut (mockUsers (\<lambda>k. (6004799503160661, - 53)) ! 1) = Finite 2"
    and "typeUsersId (mockUsers (\<lambda>k. (6004799503160661, - 53)) ! 1) = Finite 3"
    unfolding second by (simp_all add: generated_user_def two_thirds_rounds_up)
  then show ?thesis
    using mock_users_generated [of "\<lambda>k. (6004799503160661, - 53)", OF draws] draws
    by (simp add: list_all_iff)
qed

subsection \<open>Fetched users\<close>

text \<open>
  The callback field by field: what each field of the record is, whatever the fetched
  object holds.
\<close>

lemma toUser_uid: "get_prop (toUser user) (js ''uid'') = get_prop user (js ''id'')"
  by (simp add: toUser_def get_prop_def [of "JObj m" for m] js_eq_iff)

lemma toUser_number:
  "(f, n) \<in> set [(js ''etat'', 1), (js ''statut'', 1), (js ''typeUsersId'', 3)] \<Longrightarrow>
   get_prop (toUser user) f
     = (if nullish (get_prop user f) then JNum (Finite n) else get_prop user f)"
  by (auto simp: toUser_def get_prop_def [of "JObj m" for m] js_eq_iff js_coalesce_def)

lemma toUser_string:
  "f \<in> set [js ''nom'', js ''prenom'', js ''email'', js ''telephone'',
             js ''photoProfil'', js ''cniNumber'', js ''CNIDateDelivrer'',
             js ''cniExpirationDate'', js ''cniRecto'', js ''cniVerso'',
             js ''addresse'', js ''fcmToken'', js ''lastUpdated''] \<Longrightarrow>
   get_prop (toUser user) f = (if truthy (get_prop user f) then get_prop user f else JStr [])"
  by (auto simp: toUser_def get_prop_def [of "JObj m" for m] js_eq_iff js_or_def)

lemma toUser_channel:
  "c \<in> set [js ''messages'', js ''newProperties'', js ''payments'',
             js ''reservations'', js ''visits''] \<Longrightarrow>
   get_prop (get_prop (toUser user) (js ''notificationPrefs'')) c
     = (if nullish (get_prop user (js ''notificationPrefs''))
           \<or> nullish (get_prop (get_prop user (js ''notificationPrefs'')) c)
        then JBool True
        else get_prop (get_prop user (js ''notificationPrefs'')) c)"
  by (auto simp: toUser_def get_prop_def [of "JObj m" for m] js_eq_iff js_coalesce_def
      opt_chain_def nullish_def)

lemma toUser_shape:
  "k \<notin> set [js ''uid'', js ''nom'', js ''prenom'', js ''email'', js ''telephone'',
             js ''photoProfil'', js ''cniNumber'', js ''CNIDateDelivrer'',
             js ''cniExpirationDate'', js ''cniRecto'', js ''cniVerso'',
             js ''addresse'', js ''fcmToken'', js ''lastUpdated'', js ''etat'',
             js ''statut'', js ''typeUsersId'', js ''notificationPrefs''] \<Longrightarrow>
   own_props (toUser user) k = None"
  by (simp add: toUser_def)

lemma toUser_channels_shape:
  "c \<notin> set [js ''messages'', js ''newProperties'', js ''payments'',
             js ''reservations'', js ''visits''] \<Longrightarrow>
   own_props (get_prop (toUser user) (js ''notificationPrefs'')) c = None"
  by (simp add: toUser_def get_prop_def [of "JObj m" for m] js_eq_iff)

text \<open>A property that an object does not have reads as \<^verbatim>\<open>undefined\<close>, which is nullish and falsy.\<close>

lemma missing_undefined: "own_props v k = None \<Longrightarrow> get_prop v k = JUndefined"
  by (simp add: get_prop_def)

lemma demo_getCollection:
  "getCollection demo (js ''Users'')
     = (Inr (map with_id demo_users), sent demo (GetDocs (js ''Users'', [])))"
  by (simp add: getCollection_def valid_Users fs_getDocs_def demo_def run_query_def
      matching_def)

text \<open>
  Claim C9. When \<open>getCollection\<close> returns the documents of \<^verbatim>\<open>Users\<close>, \<open>fetchUsers\<close>
  returns one record for each of them, in the same order and dropping none. The
  record of a fetched document has the eighteen fields of a user and no other. Its
  \<open>uid\<close> is the \<open>id\<close> of the fetched object. Each of \<open>etat\<close>, \<open>statut\<close> and
  \<open>typeUsersId\<close> is the document's value, 0 included, unless that is \<^verbatim>\<open>null\<close> or
  \<^verbatim>\<open>undefined\<close>, and then the default: 1 for \<open>etat\<close> and \<open>statut\<close>, 3 for
  \<open>typeUsersId\<close>. Each of the five channels of \<open>notificationPrefs\<close> is the document's
  value, \<open>false\<close> included, unless \<open>notificationPrefs\<close> or the channel is \<^verbatim>\<open>null\<close> or
  \<^verbatim>\<open>undefined\<close>, and then \<open>true\<close>. Each of the thirteen string fields is the
  document's value when that is truthy, and the empty string otherwise. So a field
  that the document does not have holds its default.
\<close>

theorem fetchUsers_defaults:
  assumes "getCollection st (js ''Users'') = (Inr users, st')"
  shows "fetchUsers st = (Inr (map toUser users), st')
    \<and> length (map toUser users) = length users
    \<and> (\<forall>user.
         get_prop (toUser user) (js ''uid'') = get_prop user (js ''id'')
       \<and> (\<forall>f n. (f, n) \<in> set [(js ''etat'', 1), (js ''statut'', 1), (js ''typeUsersId'', 3)] \<longrightarrow>
            get_prop (toUser user) f
              = (if nullish (get_prop user f) then JNum (Finite n) else get_prop user f)
            \<and> (own_props user f = None \<longrightarrow> get_prop (toUser user) f = JNum (Finite n)))
       \<and> (\<forall>c \<in> set [js ''messages'', js ''newProperties'', js ''payments'',
                       js ''reservations'', js ''visits''].
            get_prop (get_prop (toUser user) (js ''notificationPrefs'')) c
              = (if nullish (get_prop user (js ''notificationPrefs''))
                    \<or> nullish (get_prop (get_prop user (js ''notificationPrefs'')) c)
                 then JBool True
                 else get_prop (get_prop user (js ''notificationPrefs'')) c)
            \<and> (own_props (get_prop user (js ''notificationPrefs'')) c = None \<longrightarrow>
                 get_prop (get_prop (toUser user) (js ''notificationPrefs'')) c = JBool True))
       \<and> (\<forall>f \<in> set [js ''nom'', js ''prenom'', js ''email'', js ''telephone'',
                       js ''photoProfil'', js ''cniNumber'', js ''CNIDateDelivrer'',
                       js ''cniExpirationDate'', js ''cniRecto'', js ''cniVerso'',
                       js ''addresse'', js ''fcmToken'', js ''lastUpdated''].
            get_prop (toUser user) f
              = (if truthy (get_prop user f) then get_prop user f else JStr [])
            \<and> (own_props user f = None \<longrightarrow> get_prop (toUser user) f = JStr []))
       \<and> (\<forall>k. k \<notin> set [js ''uid'', js ''nom'', js ''prenom'', js ''email'',
                         js ''telephone'', js ''photoProfil'', js ''cniNumber'',
                         js ''CNIDateDelivrer'', js ''cniExpirationDate'', js ''cniRecto'',
                         js ''cniVerso'', js ''addresse'', js ''fcmToken'',
                         js ''lastUpdated'', js ''etat'', js ''statut'', js ''typeUsersId'',
                         js ''notificationPrefs''] \<longrightarrow>
              own_props (toUser user) k = None)
       \<and> (\<forall>c. c \<notin> set [js ''messages'', js ''newProperties'', js ''payments'',
                         js ''reservations'', js ''visits''] \<longrightarrow>
              own_props (get_prop (toUser user) (js ''notificationPrefs'')) c = None))"
proof -
  have run: "fetchUsers st = (Inr (map toUser users), st')"
    using assms by (simp add: fetchUsers_def)
  have len: "length (map toUser users) = length users"
    by simp
  have undef: "nullish JUndefined" "\<not> truthy JUndefined"
    by (simp_all add: nullish_def)
  have nums: "get_prop (toUser user) f
        = (if nullish (get_prop user f) then JNum (Finite n) else get_prop user f)
      \<and> (own_props user f = None \<longrightarrow> get_prop (toUser user) f = JNum (Finite n))"
    if "(f, n) \<in> set [(js ''etat'', 1), (js ''statut'', 1), (js ''typeUsersId'', 3)]"
    for user f n
    unfolding toUser_number [OF that] using undef by (simp add: missing_undefined)
  have chan: "get_prop (get_prop (toUser user) (js ''notificationPrefs'')) c
        = (if nullish (get_prop user (js ''notificationPrefs''))
              \<or> nullish (get_prop (get_prop user (js ''notificationPrefs'')) c)
           then JBool True
           else get_prop (get_prop user (js ''notificationPrefs'')) c)
      \<and> (own_props (get_prop user (js ''notificationPrefs'')) c = None \<longrightarrow>
           get_prop (get_prop (toUser user) (js ''notificationPrefs'')) c = JBool True)"
    if "c \<in> set [js ''messages'', js ''newProperties'', js ''payments'',
                  js ''reservations'', js ''visits'']"
    for user c
    unfolding toUser_channel [OF that] using undef by (simp add: missing_undefined)
  have strs: "get_prop (toUser user) f
        = (if truthy (get_prop user f) then get_prop user f else JStr [])
      \<and> (own_props user f = None \<longrightarrow> get_prop (toUser user) f = JStr [])"
    if "f \<in> set [js ''nom'', js ''prenom'', js ''email'', js ''telephone'',
                  js ''photoProfil'', js ''cniNumber'', js ''CNIDateDelivrer'',
                  js ''cniExpirationDate'', js ''cniRecto'', js ''cniVerso'',
                  js ''addresse'', js ''fcmToken'', js ''lastUpdated'']"
    for user f
    unfolding toUser_string [OF that] using undef by (simp add: missing_undefined)
  from run len toUser_uid nums chan strs toUser_shape toUser_channels_shape show ?thesis
    by blast
qed

theorem fetchUsers_defaults_witness:
  "fetchUsers demo
     = (Inr (map toUser (map with_id demo_users)), sent demo (GetDocs (js ''Users'', [])))
   \<and> length (map toUser (map with_id demo_users)) = 5
   \<and> get_prop (toUser (with_id (demo_users ! 1))) (js ''uid'') = JStr (js ''u2'')
   \<and> get_prop (toUser (with_id (demo_users ! 1))) (js ''nom'') = JStr (js ''Bob'')
   \<and> get_prop (toUser (with_id (demo_users ! 1))) (js ''email'') = JStr []
   \<and> get_prop (toUser (with_id (demo_users ! 1))) (js ''statut'') = JNum (Finite 0)
   \<and> get_prop (toUser (with_id (demo_users ! 1))) (js ''etat'') = JNum (Finite 1)
   \<and> get_prop (toUser (with_id (demo_users ! 1))) (js ''typeUsersId'') = JNum (Finite 3)
   \<and> get_prop (get_prop (toUser (with_id (demo_users ! 1))) (js ''notificationPrefs''))
         (js ''payments'') = JBool True
   \<and> get_prop (get_prop (toUser (with_id (demo_users ! 4))) (js ''notificationPrefs''))
         (js ''visits'') = JBool False
   \<and> get_prop (get_prop (toUser (with_id (demo_users ! 4))) (js ''notificationPrefs''))
         (js ''payments'') = JBool True
   \<and> own_props (toUser (with_id (demo_users ! 1))) (js ''id'') = None"
proof -
  let ?bob = "with_id (demo_users ! 1)"
  let ?eve = "with_id (demo_users ! 4)"
  note all = fetchUsers_defaults [OF demo_getCollection]
  have bob: "get_prop ?bob (js ''id'') = JStr (js ''u2'')"
    "get_prop ?bob (js ''nom'') = JStr (js ''Bob'')"
    "get_prop ?bob (js ''email'') = JUndefined"
    "get_prop ?bob (js ''statut'') = JNum (Finite 0)"
    "get_prop ?bob (js ''etat'') = JUndefined"
    "get_prop ?bob (js ''typeUsersId'') = JUndefined"
    "get_prop ?bob (js ''notificationPrefs'') = JUndefined"
    by (simp_all add: demo_users_def with_id_def get_prop_def js_eq_iff)
  have eve: "get_prop ?eve (js ''notificationPrefs'') = JObj [js ''visits'' \<mapsto> JBool False]"
    "get_prop (JObj [js ''visits'' \<mapsto> JBool False]) (js ''visits'') = JBool False"
    "get_prop (JObj [js ''visits'' \<mapsto> JBool False]) (js ''payments'') = JUndefined"
    by (simp_all add: demo_users_def with_id_def get_prop_def js_eq_iff)
  have vals: "nullish JUndefined" "\<not> truthy JUndefined" "\<not> nullish (JNum (Finite 0))"
    "truthy (JStr (js ''Bob''))" "\<not> nullish (JObj [js ''visits'' \<mapsto> JBool False])"
    "\<not> nullish (JBool False)"
    by (simp_all add: nullish_def js_def)
  have mem: "(js ''statut'', 1) \<in> set [(js ''etat'', 1), (js ''statut'', 1), (js ''typeUsersId'', 3)]"
    "(js ''etat'', 1) \<in> set [(js ''etat'', 1), (js ''statut'', 1), (js ''typeUsersId'', 3)]"
    "(js ''typeUsersId'', 3) \<in> set [(js ''etat'', 1), (js ''statut'', 1), (js ''typeUsersId'', 3)]"
    "js ''payments'' \<in> set [js ''messages'', js ''newProperties'', js ''payments'',
       js ''reservations'', js ''visits'']"
    "js ''visits'' \<in> set [js ''messages'', js ''newProperties'', js ''payments'',
       js ''reservations'', js ''visits'']"
    "js ''nom'' \<in> set [js ''nom'', js ''prenom'', js ''email'', js ''telephone'',
                  js ''photoProfil'', js ''cniNumber'', js ''CNIDateDelivrer'',
                  js ''cniExpirationDate'', js ''cniRecto'', js ''cniVerso'',
                  js ''addresse'', js ''fcmToken'', js ''lastUpdated'']"
    "js ''email'' \<in> set [js ''nom'', js ''prenom'', js ''email'', js ''telephone'',
                  js ''photoProfil'', js ''cniNumber'', js ''CNIDateDelivrer'',
                  js ''cniExpirationDate'', js ''cniRecto'', js ''cniVerso'',
                  js ''addresse'', js ''fcmToken'', js ''lastUpdated'']"
    "js ''id'' \<notin> set [js ''uid'', js ''nom'', js ''prenom'', js ''email'',
                         js ''telephone'', js ''photoProfil'', js ''cniNumber'',
                         js ''CNIDateDelivrer'', js ''cniExpirationDate'', js ''cniRecto'',
                         js ''cniVerso'', js ''addresse'', js ''fcmToken'',
                         js ''lastUpdated'', js ''etat'', js ''statut'', js ''typeUsersId'',
                         js ''notificationPrefs'']"
    by (simp_all add: js_eq_iff)
  from all have run: "fetchUsers demo
     = (Inr (map toUser (map with_id demo_users)), sent demo (GetDocs (js ''Users'', [])))"
    by (rule conjunct1)
  have len: "length (map toUser (map with_id demo_users)) = 5"
    by (simp add: demo_users_def)
  from all have "get_prop (toUser ?bob) (js ''uid'') = get_prop ?bob (js ''id'')"
    by blast
  then have uid: "get_prop (toUser ?bob) (js ''uid'') = JStr (js ''u2'')"
    by (simp only: bob)
  from all mem have "get_prop (toUser ?bob) (js ''nom'')
      = (if truthy (get_prop ?bob (js ''nom'')) then get_prop ?bob (js ''nom'') else JStr [])"
    by blast
  then have nom: "get_prop (toUser ?bob) (js ''nom'') = JStr (js ''Bob'')"
    by (simp only: bob vals if_True)
  from all mem have "get_prop (toUser ?bob) (js ''email'')
      = (if truthy (get_prop ?bob (js ''email'')) then get_prop ?bob (js ''email'')
         else JStr [])"
    by blast
  then have email: "get_prop (toUser ?bob) (js ''email'') = JStr []"
    by (simp only: bob vals if_False)
  from all mem have "get_prop (toUser ?bob) (js ''statut'')
      = (if nullish (get_prop ?bob (js ''statut'')) then JNum (Finite 1)
         else get_prop ?bob (js ''statut''))"
    by blast
  then have statut: "get_prop (toUser ?bob) (js ''statut'') = JNum (Finite 0)"
    by (simp only: bob vals if_False)
  from all mem have "get_prop (toUser ?bob) (js ''etat'')
      = (if nullish (get_prop ?bob (js ''etat'')) then JNum (Finite 1)
         else get_prop ?bob (js ''etat''))"
    by blast
  then have etat: "get_prop (toUser ?bob) (js ''etat'') = JNum (Finite 1)"
    by (simp only: bob vals if_True)
  from all mem have "get_prop (toUser ?bob) (js ''typeUsersId'')
      = (if nullish (get_prop ?bob (js ''typeUsersId'')) then JNum (Finite 3)
         else get_prop ?bob (js ''typeUsersId''))"
    by blast
  then have role: "get_prop (toUser ?bob) (js ''typeUsersId'') = JNum (Finite 3)"
    by (simp only: bob vals if_True)
  from all mem have "get_prop (get_prop (toUser ?bob) (js ''notificationPrefs'')) (js ''payments'')
      = (if nullish (get_prop ?bob (js ''notificationPrefs''))
            \<or> nullish (get_prop (get_prop ?bob (js ''notificationPrefs'')) (js ''payments''))
         then JBool True
         else get_prop (get_prop ?bob (js ''notificationPrefs'')) (js ''payments''))"
    by blast
  then have pay: "get_prop (get_prop (toUser ?bob) (js ''notificationPrefs'')) (js ''payments'')
      = JBool True"
    by (simp only: bob vals simp_thms if_True if_False)
  from all mem have "get_prop (get_prop (toUser ?eve) (js ''notificationPrefs'')) (js ''visits'')
      = (if nullish (get_prop ?eve (js ''notificationPrefs''))
            \<or> nullish (get_prop (get_prop ?eve (js ''notificationPrefs'')) (js ''visits''))
         then JBool True
         else get_prop (get_prop ?eve (js ''notificationPrefs'')) (js ''visits''))"
    by blast
  then have visits: "get_prop (get_prop (toUser ?eve) (js ''notificationPrefs'')) (js ''visits'')
      = JBool False"
    by (simp only: eve vals simp_thms if_True if_False)
  from all mem have "get_prop (get_prop (toUser ?eve) (js ''notificationPrefs'')) (js ''payments'')
      = (if nullish (get_prop ?eve (js ''notificationPrefs''))
            \<or> nullish (get_prop (get_prop ?eve (js ''notificationPrefs'')) (js ''payments''))
         then JBool True
         else get_prop (get_prop ?eve (js ''notificationPrefs'')) (js ''payments''))"
    by blast
  then have pay': "get_prop (get_prop (toUser ?eve) (js ''notificationPrefs'')) (js ''payments'')
      = JBool True"
    by (simp only: eve vals simp_thms if_True if_False)
  from all mem have noid: "own_props (toUser ?bob) (js ''id'') = None"
    by blast
  from run len uid nom email statut etat role pay visits pay' noid show ?thesis
    by (intro conjI)
qed

subsection \<open>Queries\<close>

text \<open>What a request leaves of the state, and the parts of the query that is built.\<close>

lemma sent_simps:
  "documents (sent st r) = documents st"
  "refuses (sent st r) = refuses st"
  "evaluate (sent st r) = evaluate st"
  "now (sent st r) = now st"
  "requests (sent st r) = requests st @ [r]"
  by (simp_all add: sent_def)

lemma limit_of_append:
  "limit_of (xs @ ys) = (case limit_of ys of None \<Rightarrow> limit_of xs | Some m \<Rightarrow> Some m)"
  by (induction xs rule: limit_of.induct) (auto split: option.splits)

lemma cursor_of_append:
  "cursor_of (xs @ ys) = (case cursor_of ys of None \<Rightarrow> cursor_of xs | Some m \<Rightarrow> Some m)"
  by (induction xs rule: cursor_of.induct) (auto split: option.splits)

lemma clauses_only:
  "list_all is_clause xs \<Longrightarrow> limit_of xs = None \<and> cursor_of xs = None \<and> filter is_clause xs = xs"
  by (induction xs) (auto elim: is_clause.elims)

lemma where_clauses_clause: "list_all is_clause (where_clauses cs)"
  by (simp add: where_clauses_def list_all_iff)

lemma order_clauses_clause: "list_all is_clause (order_clauses os)"
  by (simp add: order_clauses_def list_all_iff)

lemma limited_query_parts:
  "fst (limited_query c cs os p) = c"
  "filter is_clause (snd (limited_query c cs os p)) = where_clauses cs @ order_clauses os"
  "limit_of (snd (limited_query c cs os p))
     = (case p of None \<Rightarrow> None | Some n \<Rightarrow> if number_truthy n then Some n else None)"
  "cursor_of (snd (limited_query c cs os p)) = None"
  using clauses_only [OF where_clauses_clause, of cs] clauses_only [OF order_clauses_clause, of os]
  by (auto simp: limited_query_def query_def Let_def limit_of_append cursor_of_append
      where_clauses_def order_clauses_def split: option.splits)

lemma page_query_parts:
  "fst (page_query options) = collectionName options"
  "filter is_clause (snd (page_query options))
     = where_clauses (case conditions options of None \<Rightarrow> [] | Some xs \<Rightarrow> xs)
       @ order_clauses (case orders options of None \<Rightarrow> [] | Some xs \<Rightarrow> xs)"
  "limit_of (snd (page_query options))
     = (case pageSize options of
          None \<Rightarrow> None
        | Some n \<Rightarrow> if number_truthy n then Some n else None)"
  "cursor_of (snd (page_query options)) = startAfterDoc options"
  by (auto simp: page_query_def Let_def query_def limited_query_parts limit_of_append
      cursor_of_append split: option.splits)

lemma matching_cursor:
  "matching st' (page_query (options\<lparr>startAfterDoc := x\<rparr>)) = matching st' (page_query options)"
  by (simp add: matching_def page_query_parts)

lemma matching_sent: "matching (sent st r) q = matching st q"
  by (simp add: matching_def sent_simps)

text \<open>A call of \<open>queryCollection\<close> returns a page exactly when it passes the four checks and the
  backend accepts the query.\<close>

lemma queryCollection_Inr:
  assumes "queryCollection st options = (Inr (page, lv), st')"
  shows "isValidString (JStr (collectionName options))"
    and "\<not> invalid_pageSize (pageSize options)"
    and "\<not> list_ex invalid_condition (case conditions options of None \<Rightarrow> [] | Some xs \<Rightarrow> xs)"
    and "\<not> list_ex invalid_order (case orders options of None \<Rightarrow> [] | Some xs \<Rightarrow> xs)"
    and "refuses st (GetDocs (page_query options)) = None"
    and "page = map with_id (run_query st (page_query options))"
    and "lv = (if run_query st (page_query options) = [] then None
               else Some (last (run_query st (page_query options))))"
    and "st' = sent st (GetDocs (page_query options))"
  using assms
  by (auto simp: queryCollection_def fs_getDocs_def Let_def split: if_splits option.splits)

lemma queryCollection_accepted:
  assumes "isValidString (JStr (collectionName options))"
    and "\<not> invalid_pageSize (pageSize options)"
    and "\<not> list_ex invalid_condition (case conditions options of None \<Rightarrow> [] | Some xs \<Rightarrow> xs)"
    and "\<not> list_ex invalid_order (case orders options of None \<Rightarrow> [] | Some xs \<Rightarrow> xs)"
    and "refuses st (GetDocs (page_query options)) = None"
  shows "queryCollection st options
    = (Inr (map with_id (run_query st (page_query options)),
            if run_query st (page_query options) = [] then None
            else Some (last (run_query st (page_query options)))),
       sent st (GetDocs (page_query options)))"
  using assms
  by (simp add: queryCollection_def fs_getDocs_def Let_def)

lemma after_cursor_suffix: "\<exists>before. ds = before @ after_cursor c ds"
proof -
  have "ds = takeWhile (\<lambda>d. fst d \<noteq> fst c) ds @ dropWhile (\<lambda>d. fst d \<noteq> fst c) ds"
    by simp
  also have "dropWhile (\<lambda>d. fst d \<noteq> fst c) ds
      = take 1 (dropWhile (\<lambda>d. fst d \<noteq> fst c) ds) @ after_cursor c ds"
    by (simp add: after_cursor_def)
  finally have "ds = (takeWhile (\<lambda>d. fst d \<noteq> fst c) ds
      @ take 1 (dropWhile (\<lambda>d. fst d \<noteq> fst c) ds)) @ after_cursor c ds"
    by simp
  then show ?thesis ..
qed

lemma after_cursor_distinct:
  assumes "distinct (map fst (before @ d # rest))"
  shows "after_cursor d (before @ d # rest) = rest"
proof -
  have notin: "fst d \<notin> fst ` set before"
    using assms by simp
  have "fst x \<noteq> fst d" if "x \<in> set before" for x
  proof
    assume "fst x = fst d"
    with that have "fst d \<in> fst ` set before"
      by (metis imageI)
    with notin show False ..
  qed
  then have "dropWhile (\<lambda>x. fst x \<noteq> fst d) (before @ d # rest) = d # rest"
    by (simp add: dropWhile_append2)
  then show ?thesis
    by (simp add: after_cursor_def)
qed

text \<open>The page a limit cuts off a list, and what it leaves.\<close>

lemma limit_prefix:
  "\<exists>rest. S = (case l of None \<Rightarrow> S | Some n \<Rightarrow> take_limit n S) @ rest"
proof (cases l)
  case None
  then show ?thesis by simp
next
  case (Some n)
  show ?thesis
  proof (cases n)
    case (Finite q)
    show ?thesis
      unfolding Some Finite
      by (simp only: option.case take_limit.simps)
        (rule exI [of _ "drop (nat \<lfloor>q\<rfloor>) S"], simp)
  qed (simp_all add: Some)
qed

lemma run_query_page:
  "run_query st (page_query options)
     = (case limit_of (snd (page_query options)) of
          None \<Rightarrow> (case startAfterDoc options of
                      None \<Rightarrow> matching st (page_query options)
                    | Some c \<Rightarrow> after_cursor c (matching st (page_query options)))
        | Some n \<Rightarrow> take_limit n
                      (case startAfterDoc options of
                         None \<Rightarrow> matching st (page_query options)
                       | Some c \<Rightarrow> after_cursor c (matching st (page_query options))))"
  by (simp add: run_query_def page_query_parts(4) Let_def)

text \<open>
  The page after a page: when the ids of the matching documents are distinct, the query
  with the last document of a page as its cursor gives the documents that follow the
  page, up to the limit.
\<close>

lemma next_page:
  assumes docs: "run_query st (page_query options) = docs" "docs \<noteq> []"
    and dist: "distinct (map fst (matching st (page_query options)))"
    and same: "documents st' = documents st" "evaluate st' = evaluate st"
  shows "\<exists>before rest.
      matching st (page_query options) = before @ docs @ rest
      \<and> run_query st' (page_query (options\<lparr>startAfterDoc := Some (last docs)\<rparr>))
          = (case limit_of (snd (page_query options)) of
               None \<Rightarrow> rest
             | Some n \<Rightarrow> take_limit n rest)"
proof -
  let ?M = "matching st (page_query options)"
  let ?S = "case startAfterDoc options of None \<Rightarrow> ?M | Some c \<Rightarrow> after_cursor c ?M"
  let ?l = "limit_of (snd (page_query options))"
  obtain before where before: "?M = before @ ?S"
  proof (cases "startAfterDoc options")
    case None
    then have "?M = [] @ ?S" by simp
    then show ?thesis by (rule that)
  next
    case (Some c)
    from after_cursor_suffix [of ?M c] obtain b where "?M = b @ after_cursor c ?M" ..
    with Some have "?M = b @ ?S" by simp
    then show ?thesis by (rule that)
  qed
  have page: "docs = (case ?l of None \<Rightarrow> ?S | Some n \<Rightarrow> take_limit n ?S)"
    using docs(1) by (simp add: run_query_page)
  obtain rest where rest: "?S = docs @ rest"
    using limit_prefix [of ?S ?l] page by auto
  have split: "?M = (before @ butlast docs) @ last docs # rest"
    using before rest docs(2) by simp
  have "after_cursor (last docs) ?M = rest"
    using after_cursor_distinct [of "before @ butlast docs" "last docs" rest] dist split
    by simp
  moreover have "matching st' (page_query (options\<lparr>startAfterDoc := Some (last docs)\<rparr>)) = ?M"
    by (simp add: matching_def page_query_parts same)
  moreover have "limit_of (snd (page_query (options\<lparr>startAfterDoc := Some (last docs)\<rparr>))) = ?l"
    by (simp add: page_query_parts)
  ultimately have "run_query st' (page_query (options\<lparr>startAfterDoc := Some (last docs)\<rparr>))
      = (case ?l of None \<Rightarrow> rest | Some n \<Rightarrow> take_limit n rest)"
    by (simp add: run_query_page split: option.splits)
  moreover have "?M = before @ docs @ rest"
    using before rest by simp
  ultimately show ?thesis by blast
qed

lemma matching_same:
  "documents st' = documents st \<Longrightarrow> evaluate st' = evaluate st \<Longrightarrow>
   matching st' (page_query (options\<lparr>startAfterDoc := c\<rparr>)) = matching st (page_query options)"
  by (simp add: matching_def page_query_parts)

lemma five_pages:
  assumes valid: "isValidString (JStr (collectionName options))"
      "\<not> list_ex invalid_condition (case conditions options of None \<Rightarrow> [] | Some xs \<Rightarrow> xs)"
      "\<not> list_ex invalid_order (case orders options of None \<Rightarrow> [] | Some xs \<Rightarrow> xs)"
    and size: "pageSize options = Some (Finite 2)"
    and first: "startAfterDoc options = None"
    and five: "matching st (page_query options) = [d1, d2, d3, d4, d5]"
    and dist: "distinct (map fst [d1, d2, d3, d4, d5])"
    and accepts: "\<forall>q. refuses st (GetDocs q) = None"
  shows "queryCollection st options
           = (Inr (map with_id [d1, d2], Some d2), sent st (GetDocs (page_query options)))
    \<and> fst (queryCollection (sent st (GetDocs (page_query options)))
              (options\<lparr>startAfterDoc := Some d2\<rparr>))
           = Inr (map with_id [d3, d4], Some d4)
    \<and> fst (queryCollection
              (sent (sent st (GetDocs (page_query options)))
                 (GetDocs (page_query (options\<lparr>startAfterDoc := Some d2\<rparr>))))
              (options\<lparr>startAfterDoc := Some d4\<rparr>))
           = Inr (map with_id [d5], Some d5)
    \<and> fst (queryCollection
              (sent (sent (sent st (GetDocs (page_query options)))
                 (GetDocs (page_query (options\<lparr>startAfterDoc := Some d2\<rparr>))))
                 (GetDocs (page_query (options\<lparr>startAfterDoc := Some d4\<rparr>))))
              (options\<lparr>startAfterDoc := Some d5\<rparr>))
           = Inr ([], None)"
proof -
  have psize: "\<not> invalid_pageSize (pageSize options)"
    by (simp add: size invalid_pageSize_def)
  have M: "matching st' (page_query (options\<lparr>startAfterDoc := c\<rparr>)) = [d1, d2, d3, d4, d5]"
    if "documents st' = documents st" "evaluate st' = evaluate st" for st' c
    using five matching_same [OF that] by simp
  have lim: "limit_of (snd (page_query (options\<lparr>startAfterDoc := c\<rparr>))) = Some (Finite 2)" for c
    by (simp add: page_query_parts size)
  have run: "run_query st' (page_query (options\<lparr>startAfterDoc := c\<rparr>))
      = take 2 (case c of None \<Rightarrow> [d1, d2, d3, d4, d5]
                | Some x \<Rightarrow> after_cursor x [d1, d2, d3, d4, d5])"
    if "documents st' = documents st" "evaluate st' = evaluate st" for st' c
    using M [OF that] lim by (simp add: run_query_page split: option.splits)
  have call: "queryCollection st' (options\<lparr>startAfterDoc := c\<rparr>)
      = (Inr (map with_id (run_query st' (page_query (options\<lparr>startAfterDoc := c\<rparr>))),
              if run_query st' (page_query (options\<lparr>startAfterDoc := c\<rparr>)) = [] then None
              else Some (last (run_query st' (page_query (options\<lparr>startAfterDoc := c\<rparr>))))),
         sent st' (GetDocs (page_query (options\<lparr>startAfterDoc := c\<rparr>))))"
    if "refuses st' = refuses st" for st' c
  proof (rule queryCollection_accepted)
    from accepts have "refuses st (GetDocs (page_query (options\<lparr>startAfterDoc := c\<rparr>))) = None" ..
    with that show "refuses st' (GetDocs (page_query (options\<lparr>startAfterDoc := c\<rparr>))) = None"
      by simp
  qed (use valid psize in simp_all)
  have a2: "after_cursor d2 [d1, d2, d3, d4, d5] = [d3, d4, d5]"
    using after_cursor_distinct [of "[d1]" d2 "[d3, d4, d5]"] dist by simp
  have a4: "after_cursor d4 [d1, d2, d3, d4, d5] = [d5]"
    using after_cursor_distinct [of "[d1, d2, d3]" d4 "[d5]"] dist by simp
  have a5: "after_cursor d5 [d1, d2, d3, d4, d5] = []"
    using after_cursor_distinct [of "[d1, d2, d3, d4]" d5 "[]"] dist by simp
  have same: "options\<lparr>startAfterDoc := None\<rparr> = options"
    using first by simp
  have c1: "queryCollection st options
           = (Inr (map with_id [d1, d2], Some d2), sent st (GetDocs (page_query options)))"
    using call [of st None] run [of st None] by (simp add: same)
  have c2: "fst (queryCollection (sent st (GetDocs (page_query options)))
              (options\<lparr>startAfterDoc := Some d2\<rparr>))
           = Inr (map with_id [d3, d4], Some d4)"
    by (simp add: call run sent_simps a2)
  have c3: "fst (queryCollection
              (sent (sent st (GetDocs (page_query options)))
                 (GetDocs (page_query (options\<lparr>startAfterDoc := Some d2\<rparr>))))
              (options\<lparr>startAfterDoc := Some d4\<rparr>))
           = Inr (map with_id [d5], Some d5)"
    by (simp add: call run sent_simps a4)
  have c4: "fst (queryCollection
              (sent (sent (sent st (GetDocs (page_query options)))
                 (GetDocs (page_query (options\<lparr>startAfterDoc := Some d2\<rparr>))))
                 (GetDocs (page_query (options\<lparr>startAfterDoc := Some d4\<rparr>))))
              (options\<lparr>startAfterDoc := Some d5\<rparr>))
           = Inr ([], None)"
    by (simp add: call run sent_simps a5)
  from c1 c2 c3 c4 show ?thesis by blast
qed

lemma demo_page_valid:
  "isValidString (JStr (collectionName demo_page))"
  "\<not> list_ex invalid_condition (case conditions demo_page of None \<Rightarrow> [] | Some xs \<Rightarrow> xs)"
  "\<not> list_ex invalid_order (case orders demo_page of None \<Rightarrow> [] | Some xs \<Rightarrow> xs)"
  "pageSize demo_page = Some (Finite 2)"
  "startAfterDoc demo_page = None"
  by (simp_all add: demo_page_def valid_Users)

lemma demo_page_matching:
  "matching demo (page_query demo_page)
     = [demo_users ! 0, demo_users ! 1, demo_users ! 2, demo_users ! 3, demo_users ! 4]"
  by (simp add: matching_def page_query_parts demo_page_def where_clauses_def
      order_clauses_def demo_def demo_users_def)

lemma demo_users_distinct:
  "distinct (map fst [demo_users ! 0, demo_users ! 1, demo_users ! 2, demo_users ! 3,
                      demo_users ! 4])"
  by (simp add: demo_users_def js_eq_iff)

lemma demo_accepts: "\<forall>q. refuses demo (GetDocs q) = None"
  by (simp add: demo_def)

lemma demo_first_page:
  "queryCollection demo demo_page
     = (Inr (map with_id [demo_users ! 0, demo_users ! 1], Some (demo_users ! 1)),
        sent demo (GetDocs (page_query demo_page)))"
  using five_pages [OF demo_page_valid demo_page_matching demo_users_distinct demo_accepts]
  by simp

text \<open>
  Claim C6. When \<open>queryCollection\<close> returns a page and a cursor, the cursor is
  \<open>null\<close> exactly when the page is empty, and for a page that is not empty it is the
  snapshot of the page's last document. That cursor can be passed as \<open>startAfterDoc\<close>
  of the next call: when the matching documents have distinct ids and the backend
  accepts the query, the next call returns the documents that follow the page among
  the matching ones, up to the page size.
\<close>

theorem queryCollection_cursor:
  assumes "queryCollection st options = (Inr (page, lastVisible), st')"
  shows "((lastVisible = None) = (page = []))
    \<and> (page \<noteq> [] \<longrightarrow> (\<exists>d. lastVisible = Some d \<and> last page = with_id d))
    \<and> (\<forall>d. lastVisible = Some d
          \<longrightarrow> distinct (map fst (matching st (page_query options)))
          \<longrightarrow> refuses st' (GetDocs (page_query (options\<lparr>startAfterDoc := Some d\<rparr>))) = None
          \<longrightarrow> (\<exists>before docs rest.
                matching st (page_query options) = before @ docs @ rest
                \<and> page = map with_id docs \<and> docs \<noteq> [] \<and> last docs = d
                \<and> fst (queryCollection st' (options\<lparr>startAfterDoc := Some d\<rparr>))
                    = Inr (map with_id
                             (case limit_of (snd (page_query options)) of
                                None \<Rightarrow> rest
                              | Some n \<Rightarrow> take_limit n rest),
                           if (case limit_of (snd (page_query options)) of
                                 None \<Rightarrow> rest
                               | Some n \<Rightarrow> take_limit n rest) = []
                           then None
                           else Some (last (case limit_of (snd (page_query options)) of
                                              None \<Rightarrow> rest
                                            | Some n \<Rightarrow> take_limit n rest)))))"
proof -
  let ?docs = "run_query st (page_query options)"
  note ok = queryCollection_Inr [OF assms]
  have page: "page = map with_id ?docs"
    and lv: "lastVisible = (if ?docs = [] then None else Some (last ?docs))"
    and st': "st' = sent st (GetDocs (page_query options))"
    by (rule ok)+
  have empty: "(lastVisible = None) = (page = [])"
    by (simp add: page lv)
  have lastdoc: "page \<noteq> [] \<longrightarrow> (\<exists>d. lastVisible = Some d \<and> last page = with_id d)"
    by (simp add: page lv last_map)
  have usable: "\<exists>before docs rest.
                matching st (page_query options) = before @ docs @ rest
                \<and> page = map with_id docs \<and> docs \<noteq> [] \<and> last docs = d
                \<and> fst (queryCollection st' (options\<lparr>startAfterDoc := Some d\<rparr>))
                    = Inr (map with_id
                             (case limit_of (snd (page_query options)) of
                                None \<Rightarrow> rest
                              | Some n \<Rightarrow> take_limit n rest),
                           if (case limit_of (snd (page_query options)) of
                                 None \<Rightarrow> rest
                               | Some n \<Rightarrow> take_limit n rest) = []
                           then None
                           else Some (last (case limit_of (snd (page_query options)) of
                                              None \<Rightarrow> rest
                                            | Some n \<Rightarrow> take_limit n rest)))"
    if d: "lastVisible = Some d"
      and dist: "distinct (map fst (matching st (page_query options)))"
      and acc: "refuses st' (GetDocs (page_query (options\<lparr>startAfterDoc := Some d\<rparr>))) = None"
    for d
  proof -
    from d lv have ne: "?docs \<noteq> []" and lst: "last ?docs = d"
      by (auto split: if_splits)
    from next_page [OF refl ne dist, of st'] obtain before rest
      where M: "matching st (page_query options) = before @ ?docs @ rest"
        and nxt: "run_query st' (page_query (options\<lparr>startAfterDoc := Some d\<rparr>))
          = (case limit_of (snd (page_query options)) of
               None \<Rightarrow> rest
             | Some n \<Rightarrow> take_limit n rest)"
      unfolding lst by (auto simp: st' sent_simps)
    have "queryCollection st' (options\<lparr>startAfterDoc := Some d\<rparr>)
        = (Inr (map with_id (run_query st' (page_query (options\<lparr>startAfterDoc := Some d\<rparr>))),
                if run_query st' (page_query (options\<lparr>startAfterDoc := Some d\<rparr>)) = [] then None
                else Some (last (run_query st' (page_query (options\<lparr>startAfterDoc := Some d\<rparr>))))),
           sent st' (GetDocs (page_query (options\<lparr>startAfterDoc := Some d\<rparr>))))"
      using ok(1-4) acc by (intro queryCollection_accepted) simp_all
    then show ?thesis
      using M page ne lst unfolding nxt by auto
  qed
  from empty lastdoc usable show ?thesis
    by blast
qed

theorem queryCollection_cursor_witness:
  "queryCollection demo demo_page
     = (Inr (map with_id [demo_users ! 0, demo_users ! 1], Some (demo_users ! 1)),
        sent demo (GetDocs (page_query demo_page)))
   \<and> last (map with_id [demo_users ! 0, demo_users ! 1]) = with_id (demo_users ! 1)
   \<and> (\<exists>before docs rest.
         matching demo (page_query demo_page) = before @ docs @ rest
         \<and> map with_id [demo_users ! 0, demo_users ! 1] = map with_id docs
         \<and> docs \<noteq> [] \<and> last docs = demo_users ! 1
         \<and> fst (queryCollection (sent demo (GetDocs (page_query demo_page)))
                  (demo_page\<lparr>startAfterDoc := Some (demo_users ! 1)\<rparr>))
             = Inr (map with_id
                      (case limit_of (snd (page_query demo_page)) of
                         None \<Rightarrow> rest
                       | Some n \<Rightarrow> take_limit n rest),
                    if (case limit_of (snd (page_query demo_page)) of
                          None \<Rightarrow> rest
                        | Some n \<Rightarrow> take_limit n rest) = []
                    then None
                    else Some (last (case limit_of (snd (page_query demo_page)) of
                                       None \<Rightarrow> rest
                                     | Some n \<Rightarrow> take_limit n rest))))"
proof -
  note cur = queryCollection_cursor [OF demo_first_page]
  have dist: "distinct (map fst (matching demo (page_query demo_page)))"
    using demo_users_distinct by (simp add: demo_page_matching)
  have acc: "refuses (sent demo (GetDocs (page_query demo_page)))
      (GetDocs (page_query (demo_page\<lparr>startAfterDoc := Some (demo_users ! 1)\<rparr>))) = None"
    by (simp add: sent_simps demo_def)
  have ne: "map with_id [demo_users ! 0, demo_users ! 1] \<noteq> []"
    by simp
  from cur dist acc ne demo_first_page show ?thesis
    by blast
qed

text \<open>
  Claim C2, as amended. For a query that passes the checks, with page size 2, that
  exactly five documents with distinct ids match, and a backend that accepts every
  query: the first call returns the first two
  documents and the second as cursor, the call with that cursor the next two and the
  fourth as cursor, the call with that cursor the fifth document alone, with the fifth
  document as cursor and not \<open>null\<close>; only a fourth call, with the third cursor,
  returns an empty page and the cursor \<open>null\<close>.
\<close>

theorem pagination_five:
  assumes "isValidString (JStr (collectionName options))"
    and "\<not> list_ex invalid_condition (case conditions options of None \<Rightarrow> [] | Some xs \<Rightarrow> xs)"
    and "\<not> list_ex invalid_order (case orders options of None \<Rightarrow> [] | Some xs \<Rightarrow> xs)"
    and "pageSize options = Some (Finite 2)"
    and "startAfterDoc options = None"
    and "matching st (page_query options) = [d1, d2, d3, d4, d5]"
    and "distinct (map fst [d1, d2, d3, d4, d5])"
    and "\<forall>q. refuses st (GetDocs q) = None"
  shows "queryCollection st options
           = (Inr (map with_id [d1, d2], Some d2), sent st (GetDocs (page_query options)))
    \<and> fst (queryCollection (sent st (GetDocs (page_query options)))
              (options\<lparr>startAfterDoc := Some d2\<rparr>))
           = Inr (map with_id [d3, d4], Some d4)
    \<and> fst (queryCollection
              (sent (sent st (GetDocs (page_query options)))
                 (GetDocs (page_query (options\<lparr>startAfterDoc := Some d2\<rparr>))))
              (options\<lparr>startAfterDoc := Some d4\<rparr>))
           = Inr (map with_id [d5], Some d5)
    \<and> fst (queryCollection
              (sent (sent (sent st (GetDocs (page_query options)))
                 (GetDocs (page_query (options\<lparr>startAfterDoc := Some d2\<rparr>))))
                 (GetDocs (page_query (options\<lparr>startAfterDoc := Some d4\<rparr>))))
              (options\<lparr>startAfterDoc := Some d5\<rparr>))
           = Inr ([], None)"
  using assms by (rule five_pages)

theorem pagination_five_witness:
  "queryCollection demo demo_page
     = (Inr (map with_id [demo_users ! 0, demo_users ! 1], Some (demo_users ! 1)),
        sent demo (GetDocs (page_query demo_page)))
   \<and> fst (queryCollection (sent demo (GetDocs (page_query demo_page)))
            (demo_page\<lparr>startAfterDoc := Some (demo_users ! 1)\<rparr>))
       = Inr (map with_id [demo_users ! 2, demo_users ! 3], Some (demo_users ! 3))
   \<and> fst (queryCollection
            (sent (sent demo (GetDocs (page_query demo_page)))
               (GetDocs (page_query (demo_page\<lparr>startAfterDoc := Some (demo_users ! 1)\<rparr>))))
            (demo_page\<lparr>startAfterDoc := Some (demo_users ! 3)\<rparr>))
       = Inr (map with_id [demo_users ! 4], Some (demo_users ! 4))
   \<and> fst (queryCollection
            (sent (sent (sent demo (GetDocs (page_query demo_page)))
               (GetDocs (page_query (demo_page\<lparr>startAfterDoc := Some (demo_users ! 1)\<rparr>))))
               (GetDocs (page_query (demo_page\<lparr>startAfterDoc := Some (demo_users ! 3)\<rparr>))))
            (demo_page\<lparr>startAfterDoc := Some (demo_users ! 4)\<rparr>))
       = Inr ([], None)"
  by (rule pagination_five [OF demo_page_valid demo_page_matching demo_users_distinct
        demo_accepts])

text \<open>
  The claim as stated asks for a \<open>null\<close> or absent cursor from the third call. On the
  five example users the third call returns the fifth user and that user as cursor.
\<close>

theorem pagination_third_cursor_counterexample:
  "fst (queryCollection
          (sent (sent demo (GetDocs (page_query demo_page)))
             (GetDocs (page_query (demo_page\<lparr>startAfterDoc := Some (demo_users ! 1)\<rparr>))))
          (demo_page\<lparr>startAfterDoc := Some (demo_users ! 3)\<rparr>))
     = Inr ([with_id (demo_users ! 4)], Some (demo_users ! 4))
   \<and> Some (demo_users ! 4) \<noteq> (None :: snapshot option)"
  using five_pages [OF demo_page_valid demo_page_matching demo_users_distinct demo_accepts]
  by simp

subsection \<open>Validation of a query\<close>

text \<open>
  The page sizes \<open>queryCollection\<close> rejects are the numbers other than 0 and \<open>NaN\<close>
  that are not positive integers; a rejected page size, condition or order makes it
  throw with the state unchanged.
\<close>

lemma invalid_pageSize_iff:
  "invalid_pageSize (Some n)
     = (n \<noteq> Finite 0 \<and> n \<noteq> NaN \<and> \<not> (\<exists>k. 0 < k \<and> n = Finite (of_int k)))"
proof (cases n)
  case (Finite q)
  have "(of_int \<lfloor>q\<rfloor> = q \<and> \<not> q \<le> 0) = (\<exists>k. 0 < k \<and> q = of_int k)"
  proof
    assume "of_int \<lfloor>q\<rfloor> = q \<and> \<not> q \<le> 0"
    then have "0 < \<lfloor>q\<rfloor> \<and> q = of_int \<lfloor>q\<rfloor>"
      by (metis of_int_0 of_int_less_iff not_le)
    then show "\<exists>k. 0 < k \<and> q = of_int k" ..
  next
    assume "\<exists>k. 0 < k \<and> q = of_int k"
    then show "of_int \<lfloor>q\<rfloor> = q \<and> \<not> q \<le> 0"
      by auto
  qed
  then show ?thesis
    using Finite by (auto simp: invalid_pageSize_def)
qed (simp_all add: invalid_pageSize_def)

lemma queryCollection_rejects:
  assumes "invalid_pageSize (pageSize options)
      \<or> list_ex invalid_condition (case conditions options of None \<Rightarrow> [] | Some xs \<Rightarrow> xs)
      \<or> list_ex invalid_order (case orders options of None \<Rightarrow> [] | Some xs \<Rightarrow> xs)"
  shows "\<exists>m. queryCollection st options = (Inl (Error m), st)"
  using assms by (auto simp: queryCollection_def Let_def)

lemma page_query_zero:
  "page_query demo_page_zero = (js ''Users'', [])"
  "page_query (demo_page_zero\<lparr>pageSize := Some NaN\<rparr>) = (js ''Users'', [])"
  by (simp_all add: page_query_def limited_query_def demo_page_zero_def)

lemma demo_all_users: "run_query demo (js ''Users'', []) = demo_users"
  by (simp add: run_query_def matching_def demo_def)

text \<open>
  Claim C3. The claim asks for a validation error whenever the page size is not a
  positive integer. The page sizes 0 and \<open>NaN\<close> are falsy, so \<^verbatim>\<open>pageSize && (...)\<close>
  never tests them: on the example backend the query is sent without a limit and the
  call returns all five users.
\<close>

theorem zero_pageSize_not_rejected:
  "queryCollection demo demo_page_zero
     = (Inr (map with_id demo_users, Some (demo_users ! 4)),
        sent demo (GetDocs (js ''Users'', [])))
   \<and> queryCollection demo (demo_page_zero\<lparr>pageSize := Some NaN\<rparr>)
     = (Inr (map with_id demo_users, Some (demo_users ! 4)),
        sent demo (GetDocs (js ''Users'', [])))"
proof -
  have last: "demo_users \<noteq> []" "last demo_users = demo_users ! 4"
    by (simp_all add: demo_users_def)
  have "queryCollection demo demo_page_zero
     = (Inr (map with_id demo_users, Some (demo_users ! 4)),
        sent demo (GetDocs (js ''Users'', [])))"
    using queryCollection_accepted [of demo_page_zero demo]
    by (simp add: page_query_zero demo_all_users last)
      (simp add: demo_page_zero_def valid_Users invalid_pageSize_def demo_def)
  moreover have "queryCollection demo (demo_page_zero\<lparr>pageSize := Some NaN\<rparr>)
     = (Inr (map with_id demo_users, Some (demo_users ! 4)),
        sent demo (GetDocs (js ''Users'', [])))"
    using queryCollection_accepted [of "demo_page_zero\<lparr>pageSize := Some NaN\<rparr>" demo]
    by (simp add: page_query_zero demo_all_users last)
      (simp add: demo_page_zero_def valid_Users invalid_pageSize_def demo_def)
  ultimately show ?thesis ..
qed

theorem zero_pageSize_not_rejected_witness:
  "fst (queryCollection demo demo_page_zero) \<noteq> Inl (Error (js ''Taille de page invalide''))
   \<and> length (map with_id demo_users) = 5"
  using zero_pageSize_not_rejected by (simp add: demo_users_def)

subsection \<open>Reading a document\<close>









subsection \<open>Batches\<close>













subsection \<open>Writing a document\<close>

text \<open>
  The fields of a document after \<open>setDocument\<close>, for arguments that pass the checks
  and a backend that accepts the request: \<open>createdAt\<close> is the payload's, or the time
  of this write when the payload has none; \<open>updatedAt\<close> is the time of this write;
  a field of the payload is the payload's; any other field is what was stored, unless
  \<^verbatim>\<open>merge\<close> is false.
\<close>

lemma map_of_insert_doc:
  "map_of ds (fst d) = None \<Longrightarrow> map_of (insert_doc d ds) = (map_of ds)(fst d \<mapsto> snd d)"
proof (induction ds)
  case Nil
  then show ?case by (cases d) simp
next
  case (Cons x xs)
  obtain k v where x: "x = (k, v)" by (cases x)
  obtain j w where d: "d = (j, w)" by (cases d)
  from Cons.prems have ne: "k \<noteq> j" and rest: "map_of xs (fst d) = None"
    by (auto simp: x d split: if_splits)
  show ?case
    using Cons.IH [OF rest] ne by (auto simp: x d fun_upd_twist)
qed

lemma map_of_replace_at:
  "map_of (map (\<lambda>x. if fst x = j then (j, w) else x) ds) k
     = (if k = j \<and> map_of ds k \<noteq> None then Some w else map_of ds k)"
  by (induction ds) auto

lemma map_of_put_doc: "map_of (put_doc d ds) = (map_of ds)(fst d \<mapsto> snd d)"
proof (cases "map_of ds (fst d) = None")
  case True
  then show ?thesis
    by (simp add: put_doc_def map_of_insert_doc)
next
  case False
  obtain j w where d: "d = (j, w)" by (cases d)
  from False show ?thesis
    by (auto simp: put_doc_def d map_of_replace_at fun_eq_iff)
qed

lemma lookup_write_set:
  "lookup_doc (write_set t r payload merging ds) r
     = Some (case lookup_doc ds r of
               None \<Rightarrow> resolve_fields t payload
             | Some old \<Rightarrow> if merging then old ++ resolve_fields t payload
                          else resolve_fields t payload)"
  by (simp add: write_set_def lookup_doc_def Let_def map_of_put_doc)

lemma setDocument_stored:
  assumes "isValidString (JStr c)" and "isValidString (JStr i)"
    and "truthy payload" and "js_typeof payload = TObject"
    and "\<forall>r. refuses st r = None"
  shows "stored_field (snd (setDocument st c i payload m)) (c, i) k
    = (if k = js ''createdAt''
       then Some (resolve (now st)
                    (js_coalesce (get_prop payload (js ''createdAt'')) JServerTimestamp))
       else if k = js ''updatedAt'' then Some (JTimestamp (now st))
       else case own_props payload k of
              Some v \<Rightarrow> Some (resolve (now st) v)
            | None \<Rightarrow> if m = Some False then None else stored_field st (c, i) k)"
  using assms
  by (auto simp: setDocument_def fs_setDoc_def stored_field_def lookup_write_set sent_def
      resolve_fields_def map_add_def js_eq_iff Let_def split: option.splits)

lemma setDocument_backend:
  "refuses (snd (setDocument st c i payload m)) = refuses st"
  by (auto simp: setDocument_def fs_setDoc_def sent_def Let_def split: option.splits)

lemma valid_u6: "isValidString (JStr (js ''u6''))"
  by (simp add: isValidString_iff js_def js_whitespace_def)

text \<open>
  Claim C1. The claim asks that a second \<open>setDocument\<close> with \<^verbatim>\<open>merge = true\<close> keeps
  the \<open>createdAt\<close> the first one wrote. The payload of every call holds
  \<^verbatim>\<open>createdAt: data.createdAt ?? serverTimestamp()\<close>, so a second call whose data has
  no \<open>createdAt\<close> writes the time of the second write over the stored one: in the
  example, 100 after the first call and 200 after the second. The other fields behave
  as claimed: \<open>updatedAt\<close> and the payload's \<open>prenom\<close> are written, \<open>nom\<close> is kept.
\<close>

theorem setDocument_createdAt_overwritten:
  "stored_field demo (js ''Users'', js ''u6'') (js ''createdAt'') = None
   \<and> stored_field demo_first_set (js ''Users'', js ''u6'') (js ''createdAt'')
       = Some (JTimestamp 100)
   \<and> stored_field demo_second_set (js ''Users'', js ''u6'') (js ''createdAt'')
       = Some (JTimestamp 200)
   \<and> stored_field demo_second_set (js ''Users'', js ''u6'') (js ''updatedAt'')
       = Some (JTimestamp 200)
   \<and> stored_field demo_second_set (js ''Users'', js ''u6'') (js ''prenom'')
       = Some (JStr (js ''Lise''))
   \<and> stored_field demo_second_set (js ''Users'', js ''u6'') (js ''nom'')
       = Some (JStr (js ''Eve''))"
proof -
  have acc: "\<forall>r. refuses demo r = None"
    by (simp add: demo_def)
  have acc': "\<forall>r. refuses (demo_first_set\<lparr>now := 200\<rparr>) r = None"
    using acc by (simp add: demo_first_set_def setDocument_backend)
  have t0: "now demo = 100"
    by (simp add: demo_def)
  have none: "stored_field demo (js ''Users'', js ''u6'') k = None" for k
    by (simp add: stored_field_def lookup_doc_def demo_def demo_users_def js_eq_iff)
  have first: "stored_field demo_first_set (js ''Users'', js ''u6'') k
      = (if k = js ''createdAt'' then Some (JTimestamp 100)
         else if k = js ''updatedAt'' then Some (JTimestamp 100)
         else if k = js ''nom'' then Some (JStr (js ''Eve''))
         else None)" for k
    unfolding demo_first_set_def
    by (simp add: setDocument_stored [OF valid_Users valid_u6 _ _ acc] t0 none
        get_prop_def js_coalesce_def nullish_def js_eq_iff)
  have keep: "stored_field (st\<lparr>now := t\<rparr>) r k = stored_field st r k" for st t r k
    by (simp add: stored_field_def)
  have second: "stored_field demo_second_set (js ''Users'', js ''u6'') k
      = (if k = js ''createdAt'' then Some (JTimestamp 200)
         else if k = js ''updatedAt'' then Some (JTimestamp 200)
         else if k = js ''prenom'' then Some (JStr (js ''Lise''))
         else if k = js ''nom'' then Some (JStr (js ''Eve''))
         else None)" for k
    unfolding demo_second_set_def
    by (simp add: setDocument_stored [OF valid_Users valid_u6 _ _ acc'] keep first
        get_prop_def js_coalesce_def nullish_def js_eq_iff)
  show ?thesis
    by (simp add: none first second js_eq_iff)
qed

theorem setDocument_createdAt_overwritten_witness:
  "stored_field demo_second_set (js ''Users'', js ''u6'') (js ''createdAt'')
     \<noteq> stored_field demo_first_set (js ''Users'', js ''u6'') (js ''createdAt'')"
  using setDocument_createdAt_overwritten by simp

end
